theory Spec2Isabelle
  imports Complex_Main
begin

section \<open>Double pendulum: right-hand sides, crossing locator, sweep drivers\<close>

text \<open>
  The notebook computes with IEEE doubles. The right-hand sides, the crossing locator and
  the sweep drivers are embedded over \<open>real\<close>: the statements about them are about the
  formulas the code evaluates, read over the real numbers. Where a statement is about
  the value a call returns in double arithmetic, the small-angle right-hand side is
  embedded a second time over a model of doubles (\<open>sa_dp_rhs_double\<close>). A division by
  zero, which on numpy floats yields \<open>inf\<close> or \<open>nan\<close> and on Python floats
  raises, is the error \<open>DivisionByZero\<close>.
\<close>

subsection \<open>Errors and data\<close>

datatype error =
    ValueError        \<comment> \<open>wrong number of values to unpack, \<open>list.index\<close> of an absent value, negative sample count, truth value of an array of several entries\<close>
  | IndexError        \<comment> \<open>subscript out of range\<close>
  | DivisionByZero    \<comment> \<open>a quotient with denominator zero (non-finite float)\<close>

text \<open>The state vector \<open>v = [p1, w1, p2, w2]\<close>; the parameter vector \<open>p\<close> stays a list,
  since the drivers copy it and assign to its entries by index.\<close>

type_synonym state = "real \<times> real \<times> real \<times> real"

subsection \<open>The right-hand sides\<close>

text \<open>
  \<^verbatim>\<open>
  p1, w1, p2, w2 = v
  m1, m2, l1, l2, g = p
  w1_dot = (-(m1+m2)*g*sin(p1)-m2*l2*w2*w2*sin(p1-p2)-m2*cos(p1-p2)*l1*w1*w1*sin(p1-p2)
            +m2*g*cos(p1-p2)*sin(p2))/((m1+m2)*l1-m2*l1*(cos(p1-p2)*cos(p1-p2)))
  w2_dot = (l1*w1*w1*2*sin(p1-p2)-g*sin(p2)-l1*w1_dot*cos(p1-p2))/l2
  f = [w1,w1_dot,w2,w2_dot]
  \<close>
\<close>

fun dp_rhs :: "state \<Rightarrow> real \<Rightarrow> real list \<Rightarrow> error + state" where
  "dp_rhs (p1, w1, p2, w2) t [m1, m2, l1, l2, g] =
     (if (m1+m2)*l1 - m2*l1*(cos (p1-p2) * cos (p1-p2)) = 0 then Inl DivisionByZero
      else
        let w1_dot = (-(m1+m2)*g*sin p1 - m2*l2*w2*w2*sin (p1-p2)
                       - m2*cos (p1-p2)*l1*w1*w1*sin (p1-p2)
                       + m2*g*cos (p1-p2)*sin p2)
                     / ((m1+m2)*l1 - m2*l1*(cos (p1-p2) * cos (p1-p2)))
        in if l2 = 0 then Inl DivisionByZero
           else
             let w2_dot = (l1*w1*w1*2*sin (p1-p2) - g*sin p2 - l1*w1_dot*cos (p1-p2)) / l2
             in Inr (w1, w1_dot, w2, w2_dot))"
| "dp_rhs v t p = Inl ValueError"

text \<open>
  \<^verbatim>\<open>
  w1_dot = (g*l1)*(m2*p2-(m1+m2)*p1)/(m1*l1*l1)
  w2_dot = -(g*p2+l1*w1_dot)/l2
  \<close>
\<close>

fun sa_dp_rhs :: "state \<Rightarrow> real \<Rightarrow> real list \<Rightarrow> error + state" where
  "sa_dp_rhs (p1, w1, p2, w2) t [m1, m2, l1, l2, g] =
     (if m1*l1*l1 = 0 then Inl DivisionByZero
      else
        let w1_dot = (g*l1)*(m2*p2 - (m1+m2)*p1) / (m1*l1*l1)
        in if l2 = 0 then Inl DivisionByZero
           else
             let w2_dot = - (g*p2 + l1*w1_dot) / l2
             in Inr (w1, w1_dot, w2, w2_dot))"
| "sa_dp_rhs v t p = Inl ValueError"


subsection \<open>The small-angle right-hand side in double arithmetic\<close>

text \<open>
  A double is a finite number, an infinity or NaN. \<open>Fl x\<close> is a double when \<open>x\<close> is
  representable, that is when \<open>rnd x = Fl x\<close>. The two zeros of IEEE 754 are one value here:
  they compare equal, and \<open>sa_dp_rhs\<close> tells them apart nowhere (a division by either
  raises).
\<close>

datatype double = Fl real | PInf | NInf | NaN

text \<open>\<open>rnd\<close> rounds a real number to the nearest double, ties to the even significand.
  The spacing of the doubles around \<open>x\<close> is \<open>2^e\<close> with \<open>e = floor(log2 |x|) - 52\<close>, and
  \<open>e = -1074\<close> below \<open>2^-1022\<close> (the subnormal range); a real number from
  \<open>2^1024 - 2^970\<close> on rounds to infinity.\<close>

definition ulp_exp :: "real \<Rightarrow> int" where
  "ulp_exp x = (if \<bar>x\<bar> < 2 powr (-1022) then -1074 else \<lfloor>log 2 \<bar>x\<bar>\<rfloor> - 52)"

definition round_half_even :: "real \<Rightarrow> int" where
  "round_half_even y =
     (if y - of_int \<lfloor>y\<rfloor> < 1/2 then \<lfloor>y\<rfloor>
      else if 1/2 < y - of_int \<lfloor>y\<rfloor> then \<lfloor>y\<rfloor> + 1
      else if even \<lfloor>y\<rfloor> then \<lfloor>y\<rfloor> else \<lfloor>y\<rfloor> + 1)"

definition nearest_double :: "real \<Rightarrow> real" where
  "nearest_double x =
     of_int (round_half_even (x / 2 powr of_int (ulp_exp x))) * 2 powr of_int (ulp_exp x)"

definition rnd :: "real \<Rightarrow> double" where
  "rnd x =
     (if 2^1024 - 2^970 \<le> x then PInf
      else if x \<le> - (2^1024 - 2^970) then NInf
      else Fl (nearest_double x))"

text \<open>Negation, addition, subtraction and multiplication follow IEEE 754: the exact
  result is rounded; \<open>inf - inf\<close> and \<open>0 * inf\<close> are NaN; NaN propagates.\<close>

fun fneg :: "double \<Rightarrow> double" where
  "fneg (Fl x) = Fl (- x)"
| "fneg PInf = NInf"
| "fneg NInf = PInf"
| "fneg NaN = NaN"

fun fadd :: "double \<Rightarrow> double \<Rightarrow> double" where
  "fadd (Fl x) (Fl y) = rnd (x + y)"
| "fadd NaN b = NaN"
| "fadd a NaN = NaN"
| "fadd PInf NInf = NaN"
| "fadd NInf PInf = NaN"
| "fadd PInf b = PInf"
| "fadd a PInf = PInf"
| "fadd NInf b = NInf"
| "fadd a NInf = NInf"

definition fsub :: "double \<Rightarrow> double \<Rightarrow> double" where
  "fsub a b = fadd a (fneg b)"

fun fmul :: "double \<Rightarrow> double \<Rightarrow> double" where
  "fmul (Fl x) (Fl y) = rnd (x * y)"
| "fmul NaN b = NaN"
| "fmul a NaN = NaN"
| "fmul (Fl x) PInf = (if x = 0 then NaN else if 0 < x then PInf else NInf)"
| "fmul (Fl x) NInf = (if x = 0 then NaN else if 0 < x then NInf else PInf)"
| "fmul PInf (Fl y) = (if y = 0 then NaN else if 0 < y then PInf else NInf)"
| "fmul NInf (Fl y) = (if y = 0 then NaN else if 0 < y then NInf else PInf)"
| "fmul PInf PInf = PInf"
| "fmul NInf NInf = PInf"
| "fmul PInf NInf = NInf"
| "fmul NInf PInf = NInf"

text \<open>Division of Python floats raises \<open>ZeroDivisionError\<close> when the divisor is zero,
  whatever the dividend; numpy floats give \<open>nan\<close> or an infinity there instead.\<close>

fun fdiv :: "double \<Rightarrow> double \<Rightarrow> error + double" where
  "fdiv a (Fl y) =
     (if y = 0 then Inl DivisionByZero
      else (case a of
              Fl x \<Rightarrow> Inr (rnd (x / y))
            | PInf \<Rightarrow> Inr (if 0 < y then PInf else NInf)
            | NInf \<Rightarrow> Inr (if 0 < y then NInf else PInf)
            | NaN \<Rightarrow> Inr NaN))"
| "fdiv NaN b = Inr NaN"
| "fdiv a NaN = Inr NaN"
| "fdiv (Fl x) b = Inr (Fl 0)"
| "fdiv a b = Inr NaN"

text \<open>
  \<^verbatim>\<open>
  w1_dot = (g*l1)*(m2*p2-(m1+m2)*p1)/(m1*l1*l1)
  w2_dot = -(g*p2+l1*w1_dot)/l2
  f = [w1,w1_dot,w2,w2_dot]
  \<close>
  with every operation in double arithmetic, in Python's order of evaluation.
\<close>

type_synonym dstate = "double \<times> double \<times> double \<times> double"

fun sa_dp_rhs_double :: "dstate \<Rightarrow> double \<Rightarrow> double list \<Rightarrow> error + dstate" where
  "sa_dp_rhs_double (p1, w1, p2, w2) t [m1, m2, l1, l2, g] =
     (case fdiv (fmul (fmul g l1) (fsub (fmul m2 p2) (fmul (fadd m1 m2) p1)))
                (fmul (fmul m1 l1) l1) of
        Inl e \<Rightarrow> Inl e
      | Inr w1_dot \<Rightarrow>
         (case fdiv (fneg (fadd (fmul g p2) (fmul l1 w1_dot))) l2 of
            Inl e \<Rightarrow> Inl e
          | Inr w2_dot \<Rightarrow> Inr (w1, w1_dot, w2, w2_dot)))"
| "sa_dp_rhs_double v t p = Inl ValueError"

text \<open>The closed form the specification names for the exact dynamics: the second Lagrange
  equation without any factor on the \<open>omega1^2\<close> term. It is written from the specification's
  formula, to be compared with \<open>dp_rhs\<close>.\<close>

definition standard_omega1_dot :: "state \<Rightarrow> real list \<Rightarrow> real" where
  "standard_omega1_dot v p =
     (case (v, p) of ((phi1, omega1, phi2, omega2), [m1, m2, l1, l2, g]) \<Rightarrow>
        (- (m1+m2)*g*sin phi1 - m2*l2*omega2^2*sin (phi1-phi2)
         - m2*cos (phi1-phi2)*l1*omega1^2*sin (phi1-phi2)
         + m2*g*cos (phi1-phi2)*sin phi2)
        / ((m1+m2)*l1 - m2*l1*(cos (phi1-phi2))^2)
      | _ \<Rightarrow> 0)"

definition standard_omega2_dot :: "state \<Rightarrow> real list \<Rightarrow> real" where
  "standard_omega2_dot v p =
     (case (v, p) of ((phi1, omega1, phi2, omega2), [m1, m2, l1, l2, g]) \<Rightarrow>
        (l1*omega1^2*sin (phi1-phi2) - g*sin phi2
         - l1*standard_omega1_dot v p*cos (phi1-phi2)) / l2
      | _ \<Rightarrow> 0)"

definition standard_dp_rhs :: "state \<Rightarrow> real list \<Rightarrow> state" where
  "standard_dp_rhs v p =
     (case v of (phi1, omega1, phi2, omega2) \<Rightarrow>
        (omega1, standard_omega1_dot v p, omega2, standard_omega2_dot v p))"

subsection \<open>The vertical-crossing locator\<close>

text \<open>
  \<^verbatim>\<open>
  closest = 999
  closest_index = None
  for i in range(len(p1)):
      x = abs(l1*sin(p1[i])+l2*sin(p2[i]))
      if x < closest:
          closest = x
          closest_index = i
  return closest_index
  \<close>
  The loop runs over the indices \<open>[0..<length p1]\<close> and carries \<open>(closest, closest_index)\<close>.
  A subscript beyond the end of either array raises \<open>IndexError\<close>.
\<close>

fun find_vertical_loop ::
  "real \<Rightarrow> real \<Rightarrow> real list \<Rightarrow> real list \<Rightarrow> nat list \<Rightarrow> real \<times> nat option
     \<Rightarrow> error + (real \<times> nat option)" where
  "find_vertical_loop l1 l2 p1 p2 [] st = Inr st"
| "find_vertical_loop l1 l2 p1 p2 (i # is) (closest, closest_index) =
     (if i < length p1 \<and> i < length p2 then
        (let x = \<bar>l1 * sin (p1 ! i) + l2 * sin (p2 ! i)\<bar>
         in if x < closest then find_vertical_loop l1 l2 p1 p2 is (x, Some i)
            else find_vertical_loop l1 l2 p1 p2 is (closest, closest_index))
      else Inl IndexError)"

definition find_vertical :: "real \<Rightarrow> real \<Rightarrow> real list \<Rightarrow> real list \<Rightarrow> error + nat option" where
  "find_vertical l1 l2 p1 p2 =
     (case find_vertical_loop l1 l2 p1 p2 [0..<length p1] (999, None) of
        Inl e \<Rightarrow> Inl e
      | Inr (closest, closest_index) \<Rightarrow> Inr closest_index)"

text \<open>The deviation of the second mass from the vertical at sample \<open>i\<close>.\<close>

definition deviation :: "real \<Rightarrow> real \<Rightarrow> real list \<Rightarrow> real list \<Rightarrow> nat \<Rightarrow> real" where
  "deviation l1 l2 p1 p2 i = \<bar>l1 * sin (p1 ! i) + l2 * sin (p2 ! i)\<bar>"


subsection \<open>Library functions the drivers call\<close>

text \<open>
  \<open>numpy.linspace(start, stop, num)\<close>: \<open>num\<close> evenly spaced samples from \<open>start\<close> to
  \<open>stop\<close> inclusive, sample \<open>i\<close> being \<open>start + i * (stop - start) / (num - 1)\<close>; a single
  sample is \<open>start\<close>; a negative \<open>num\<close> raises \<open>ValueError\<close>.
\<close>

definition linspace :: "real \<Rightarrow> real \<Rightarrow> int \<Rightarrow> error + real list" where
  "linspace start stop num =
     (if num < 0 then Inl ValueError
      else Inr (map (\<lambda>i. start + real i * ((stop - start) / real_of_int (num - 1)))
                  [0..<nat num]))"

text \<open>
  \<open>scipy.integrate.odeint(rhs, ic, t, args=(p,), atol=abserr, rtol=relerr)\<close> is not part of
  the repository. The drivers take the integrator as a parameter: any function from the
  right-hand side, the initial state, the time grid, the parameter values and the two
  tolerances to a trajectory (one state per row of \<open>v_sol\<close>) or an error.
\<close>

type_synonym rhs_fun = "state \<Rightarrow> real \<Rightarrow> real list \<Rightarrow> error + state"

type_synonym integrator =
  "rhs_fun \<Rightarrow> state \<Rightarrow> real list \<Rightarrow> real list \<Rightarrow> real \<Rightarrow> real \<Rightarrow> error + state list"

text \<open>The columns \<open>v_sol[:,0]\<close>, \<open>v_sol[:,2]\<close> and \<open>v_sol[:,3]\<close> of a trajectory.\<close>

definition column0 :: "state list \<Rightarrow> real list" where
  "column0 v_sol = map (\<lambda>(p1, w1, p2, w2). p1) v_sol"

definition column2 :: "state list \<Rightarrow> real list" where
  "column2 v_sol = map (\<lambda>(p1, w1, p2, w2). p2) v_sol"

definition column3 :: "state list \<Rightarrow> real list" where
  "column3 v_sol = map (\<lambda>(p1, w1, p2, w2). w2) v_sol"

subsection \<open>Floats and arrays in the sweep lists\<close>

text \<open>
  \<open>-w2_arr[t_index]\<close> is a float when \<open>t_index\<close> is an index. When \<open>t_index\<close> is \<open>None\<close>,
  numpy reads \<open>w2_arr[None]\<close> as the array with a new leading axis, so the expression is
  the array of shape \<open>(1, N)\<close> that holds the whole negated column; no exception is
  raised. The sweep lists therefore hold values of both kinds.
\<close>

datatype obs = Scalar real | Array "real list"

definition neg_item :: "real list \<Rightarrow> nat option \<Rightarrow> error + obs" where
  "neg_item w2_arr t_index =
     (case t_index of
        None \<Rightarrow> Inr (Array (map uminus w2_arr))
      | Some i \<Rightarrow> (if i < length w2_arr then Inr (Scalar (- (w2_arr ! i))) else Inl IndexError))"

fun entries :: "obs \<Rightarrow> real list" where
  "entries (Scalar x) = [x]"
| "entries (Array xs) = xs"

text \<open>
  The truth value of a comparison \<open>a rel b\<close>, as \<open>if\<close> and \<open>list.index\<close> take it. Between
  floats it is the comparison. With an array numpy compares entry by entry, a float or a
  one-entry array being broadcast against the other operand, and the truth value of the
  resulting array is its entry when it has exactly one, \<open>False\<close> when it has none (numpy
  1.x, with a deprecation warning), and \<open>ValueError\<close> when it has several; operands that
  cannot be broadcast raise \<open>ValueError\<close> as well.
\<close>

definition truth_of :: "(real \<Rightarrow> real \<Rightarrow> bool) \<Rightarrow> obs \<Rightarrow> obs \<Rightarrow> error + bool" where
  "truth_of rel a b =
     (if length (entries a) = 1 \<and> length (entries b) = 1
      then Inr (rel (hd (entries a)) (hd (entries b)))
      else if (entries a = [] \<and> length (entries b) \<le> 1)
              \<or> (entries b = [] \<and> length (entries a) \<le> 1)
      then Inr False
      else Inl ValueError)"

text \<open>\<open>xs.index(x)\<close>: the position of the first element whose comparison \<open>==\<close> with \<open>x\<close> is
  true; \<open>ValueError\<close> when there is none. (An element that is the object \<open>x\<close> itself
  matches without a comparison; in the lists built here such an element also compares
  equal.)\<close>

fun list_index :: "obs list \<Rightarrow> obs \<Rightarrow> error + nat" where
  "list_index [] x = Inl ValueError"
| "list_index (y # ys) x =
     (case truth_of (=) y x of
        Inl e \<Rightarrow> Inl e
      | Inr True \<Rightarrow> Inr 0
      | Inr False \<Rightarrow> (case list_index ys x of Inl e \<Rightarrow> Inl e | Inr k \<Rightarrow> Inr (Suc k)))"

subsection \<open>Module-level variables and the store of list objects\<close>

text \<open>
  The notebook's functions read module-level variables. The parameter list \<open>p\<close> is an
  object that \<open>length_plot\<close> and \<open>mass_plot\<close> copy and then assign into, so lists that are
  assigned into live in a store, addressed by reference; \<open>glob_p\<close> holds the reference.
\<close>

type_synonym addr = nat

record store =
  cells :: "addr \<Rightarrow> real list option"
  next_addr :: addr

record globals =
  glob_m1 :: real
  glob_m2 :: real
  glob_g :: real
  glob_l1 :: real
  glob_l2 :: real
  glob_p1 :: real
  glob_w1 :: real
  glob_p2 :: real
  glob_w2 :: real
  glob_p :: addr
  glob_IC :: state
  glob_N :: int
  glob_t_end :: real
  glob_t_interval :: "real list"
  glob_abserr :: real
  glob_relerr :: real

definition load :: "store \<Rightarrow> addr \<Rightarrow> real list" where
  "load s a = (case cells s a of Some xs \<Rightarrow> xs | None \<Rightarrow> [])"

text \<open>\<open>q = xs.copy()\<close>: a new list object with the same entries.\<close>

definition list_copy :: "store \<Rightarrow> addr \<Rightarrow> addr \<times> store" where
  "list_copy s a =
     (next_addr s,
      s\<lparr>cells := (cells s)(next_addr s \<mapsto> load s a), next_addr := Suc (next_addr s)\<rparr>)"

text \<open>\<open>xs[i] = x\<close> on the object at \<open>a\<close>; \<open>IndexError\<close> when \<open>i\<close> is out of range.\<close>

definition store_setitem :: "store \<Rightarrow> addr \<Rightarrow> nat \<Rightarrow> real \<Rightarrow> error + store" where
  "store_setitem s a i x =
     (if i < length (load s a) then Inr (s\<lparr>cells := (cells s)(a \<mapsto> (load s a)[i := x])\<rparr>)
      else Inl IndexError)"

subsection \<open>The one-dimensional sweeps\<close>

text \<open>
  \<^verbatim>\<open>
  l_arr = linspace(0.25,l_max, n)
  p_l = p.copy()
  w2_list = []
  for l in l_arr:
      if plot_l1:
          p_l[2] = l
      else:
          p_l[3] = l
      v_sol = odeint(rhs, IC, t_interval, args=(p_l,), atol=abserr, rtol=relerr)
      p1_arr, p2_arr, w2_arr = v_sol[:,0],v_sol[:,2], v_sol[:,3]
      if plot_l1:
          t_index = find_vertical(l,l2,p1_arr,p2_arr)
      else:
          t_index = find_vertical(l1,l,p1_arr,p2_arr)
      w2_list.append(-w2_arr[t_index])
  plot(l_arr,w2_list,'-o',label='l1' if plot_l1 else 'l2')
  \<close>
  The model returns \<open>w2_list\<close> as the loop leaves it, together with the store as the run
  leaves it; the plotting call that consumes the list is outside the model.
\<close>

fun length_loop ::
  "integrator \<Rightarrow> globals \<Rightarrow> rhs_fun \<Rightarrow> bool \<Rightarrow> addr \<Rightarrow> real list \<Rightarrow> obs list \<Rightarrow> store
     \<Rightarrow> (error + obs list) \<times> store" where
  "length_loop odeint G rhs plot_l1 p_l [] w2_list s = (Inr w2_list, s)"
| "length_loop odeint G rhs plot_l1 p_l (l # l_arr) w2_list s =
     (case store_setitem s p_l (if plot_l1 then 2 else 3) l of
        Inl e \<Rightarrow> (Inl e, s)
      | Inr s' \<Rightarrow>
         (case odeint rhs (glob_IC G) (glob_t_interval G) (load s' p_l)
                 (glob_abserr G) (glob_relerr G) of
            Inl e \<Rightarrow> (Inl e, s')
          | Inr v_sol \<Rightarrow>
             (case (if plot_l1
                    then find_vertical l (glob_l2 G) (column0 v_sol) (column2 v_sol)
                    else find_vertical (glob_l1 G) l (column0 v_sol) (column2 v_sol)) of
                Inl e \<Rightarrow> (Inl e, s')
              | Inr t_index \<Rightarrow>
                 (case neg_item (column3 v_sol) t_index of
                    Inl e \<Rightarrow> (Inl e, s')
                  | Inr w \<Rightarrow>
                     length_loop odeint G rhs plot_l1 p_l l_arr (w2_list @ [w]) s'))))"

definition length_plot ::
  "integrator \<Rightarrow> globals \<Rightarrow> store \<Rightarrow> rhs_fun \<Rightarrow> bool \<Rightarrow> int \<Rightarrow> real
     \<Rightarrow> (error + obs list) \<times> store" where
  "length_plot odeint G s rhs plot_l1 n l_max =
     (case linspace (25/100) l_max n of
        Inl e \<Rightarrow> (Inl e, s)
      | Inr l_arr \<Rightarrow>
         (case list_copy s (glob_p G) of
            (p_l, s') \<Rightarrow> length_loop odeint G rhs plot_l1 p_l l_arr [] s'))"

text \<open>
  \<^verbatim>\<open>
  m_arr = linspace(0.25,m_max, n)
  p_m = p.copy()
  w2_list = []
  for m in m_arr:
      if plot_m1:
          p_m[0] = m
      else:
          p_m[1] = m
      v_sol = odeint(rhs, IC, t_interval, args=(p_m,), atol=abserr, rtol=relerr)
      p1_arr, p2_arr, w2_arr = v_sol[:,0],v_sol[:,2], v_sol[:,3]
      t_index = find_vertical(l1,l2,p1_arr,p2_arr)
      w2_list.append(-w2_arr[t_index])
  plot(m_arr,w2_list,'-o',label='m1' if plot_m1 else 'm2')
  \<close>
\<close>

fun mass_loop ::
  "integrator \<Rightarrow> globals \<Rightarrow> rhs_fun \<Rightarrow> bool \<Rightarrow> addr \<Rightarrow> real list \<Rightarrow> obs list \<Rightarrow> store
     \<Rightarrow> (error + obs list) \<times> store" where
  "mass_loop odeint G rhs plot_m1 p_m [] w2_list s = (Inr w2_list, s)"
| "mass_loop odeint G rhs plot_m1 p_m (m # m_arr) w2_list s =
     (case store_setitem s p_m (if plot_m1 then 0 else 1) m of
        Inl e \<Rightarrow> (Inl e, s)
      | Inr s' \<Rightarrow>
         (case odeint rhs (glob_IC G) (glob_t_interval G) (load s' p_m)
                 (glob_abserr G) (glob_relerr G) of
            Inl e \<Rightarrow> (Inl e, s')
          | Inr v_sol \<Rightarrow>
             (case find_vertical (glob_l1 G) (glob_l2 G) (column0 v_sol) (column2 v_sol) of
                Inl e \<Rightarrow> (Inl e, s')
              | Inr t_index \<Rightarrow>
                 (case neg_item (column3 v_sol) t_index of
                    Inl e \<Rightarrow> (Inl e, s')
                  | Inr w \<Rightarrow>
                     mass_loop odeint G rhs plot_m1 p_m m_arr (w2_list @ [w]) s'))))"

definition mass_plot ::
  "integrator \<Rightarrow> globals \<Rightarrow> store \<Rightarrow> rhs_fun \<Rightarrow> bool \<Rightarrow> int \<Rightarrow> real
     \<Rightarrow> (error + obs list) \<times> store" where
  "mass_plot odeint G s rhs plot_m1 n m_max =
     (case linspace (25/100) m_max n of
        Inl e \<Rightarrow> (Inl e, s)
      | Inr m_arr \<Rightarrow>
         (case list_copy s (glob_p G) of
            (p_m, s') \<Rightarrow> mass_loop odeint G rhs plot_m1 p_m m_arr [] s'))"

subsection \<open>The two-dimensional angle sweep\<close>

text \<open>
  \<^verbatim>\<open>
  iter_p1 = linspace(angle_start,angle_end, iter_n)
  iter_p2 = linspace(angle_start,angle_end, iter_n)
  for p1 in iter_p1:
      max_w2_for_current_p1 = 0
      min_w2_for_current_p1 = 9999
      for p2 in iter_p2:
          ic = [p1, w1, p2, w2]
          v_sol = odeint(rhs, ic, t_interval, args=(p,), atol=abserr, rtol=relerr)
          p1_arr, p2_arr, w2_arr = v_sol[:,0],v_sol[:,2], v_sol[:,3]
          t_index = find_vertical(l1,l2,p1_arr,p2_arr)
          w2_at_vertical = -w2_arr[t_index]
          if w2_at_vertical > max_w2_for_current_p1:
              max_w2_for_current_p1 = w2_at_vertical
          if w2_at_vertical < min_w2_for_current_p1:
              min_w2_for_current_p1 = w2_at_vertical
          w2_list.append(w2_at_vertical)
          p1_list.append(p1)
          p2_list.append(p2)
          if show_level_curve:
              if abs(w_val - w2_at_vertical) < w_err:
                  p1_err_list.append(p1)
                  p2_err_list.append(p2)
                  w2_err_list.append(w2_at_vertical)
      max_w2_list.append(max_w2_for_current_p1)
      max_p2_list.append(p2_list[w2_list.index(max_w2_for_current_p1)])
      min_w2_list.append(min_w2_for_current_p1)
      min_p2_list.append(p2_list[w2_list.index(min_w2_for_current_p1)])
  \<close>
  The ten lists the function accumulates are the fields of \<open>sweep_lists\<close>; the model
  returns them (the plotting calls that consume them are outside the model). The value
  \<open>-w2_arr[t_index]\<close> is \<open>neg_item\<close>, and each \<open>if\<close> takes the truth value of its
  comparison (\<open>truth_of\<close>), which raises for an array of several entries. Inside the
  function \<open>p1\<close> and \<open>p2\<close> are the loop variables; \<open>w1\<close>, \<open>w2\<close>, \<open>l1\<close>, \<open>l2\<close>, \<open>p\<close>,
  \<open>t_interval\<close>, \<open>abserr\<close> and \<open>relerr\<close> are the module-level variables.
\<close>

record sweep_lists =
  p1_err_list :: "real list"
  p2_err_list :: "real list"
  w2_err_list :: "obs list"
  p1_list :: "real list"
  p2_list :: "real list"
  w2_list :: "obs list"
  max_p2_list :: "real list"
  max_w2_list :: "obs list"
  min_p2_list :: "real list"
  min_w2_list :: "obs list"

definition empty_lists :: sweep_lists where
  "empty_lists =
     \<lparr>p1_err_list = [], p2_err_list = [], w2_err_list = [],
      p1_list = [], p2_list = [], w2_list = [],
      max_p2_list = [], max_w2_list = [], min_p2_list = [], min_w2_list = []\<rparr>"

fun p_w_inner ::
  "integrator \<Rightarrow> globals \<Rightarrow> store \<Rightarrow> rhs_fun \<Rightarrow> real \<Rightarrow> bool \<Rightarrow> real \<Rightarrow> real \<Rightarrow> real list
     \<Rightarrow> obs \<times> obs \<times> sweep_lists \<Rightarrow> error + (obs \<times> obs \<times> sweep_lists)" where
  "p_w_inner odeint G s rhs w_val show_level_curve w_err p1 [] st = Inr st"
| "p_w_inner odeint G s rhs w_val show_level_curve w_err p1 (p2 # iter_p2)
       (max_w2_for_current_p1, min_w2_for_current_p1, L) =
     (case odeint rhs (p1, glob_w1 G, p2, glob_w2 G) (glob_t_interval G) (load s (glob_p G))
             (glob_abserr G) (glob_relerr G) of
        Inl e \<Rightarrow> Inl e
      | Inr v_sol \<Rightarrow>
         (case find_vertical (glob_l1 G) (glob_l2 G) (column0 v_sol) (column2 v_sol) of
            Inl e \<Rightarrow> Inl e
          | Inr t_index \<Rightarrow>
             (case neg_item (column3 v_sol) t_index of
                Inl e \<Rightarrow> Inl e
              | Inr w2_at_vertical \<Rightarrow>
                 (case truth_of (>) w2_at_vertical max_w2_for_current_p1 of
                    Inl e \<Rightarrow> Inl e
                  | Inr gt \<Rightarrow>
                     (case truth_of (<) w2_at_vertical min_w2_for_current_p1 of
                        Inl e \<Rightarrow> Inl e
                      | Inr lt \<Rightarrow>
                         (let mx = (if gt then w2_at_vertical else max_w2_for_current_p1);
                              mn = (if lt then w2_at_vertical else min_w2_for_current_p1);
                              L1 = L\<lparr>p1_list := p1_list L @ [p1], p2_list := p2_list L @ [p2],
                                     w2_list := w2_list L @ [w2_at_vertical]\<rparr>
                          in if show_level_curve then
                               (case truth_of (\<lambda>x y. \<bar>w_val - x\<bar> < y) w2_at_vertical
                                       (Scalar w_err) of
                                  Inl e \<Rightarrow> Inl e
                                | Inr near \<Rightarrow>
                                   p_w_inner odeint G s rhs w_val show_level_curve w_err p1 iter_p2
                                     (mx, mn,
                                      if near
                                      then L1\<lparr>p1_err_list := p1_err_list L1 @ [p1],
                                              p2_err_list := p2_err_list L1 @ [p2],
                                              w2_err_list := w2_err_list L1 @ [w2_at_vertical]\<rparr>
                                      else L1))
                             else p_w_inner odeint G s rhs w_val show_level_curve w_err p1 iter_p2
                                    (mx, mn, L1)))))))"

text \<open>The end of a row: the two running extrema are appended, each with the entry of
  \<open>p2_list\<close> at the first position of \<open>w2_list\<close> (the whole list accumulated so far) that
  holds the value.\<close>

definition p_w_row_end :: "obs \<times> obs \<times> sweep_lists \<Rightarrow> error + sweep_lists" where
  "p_w_row_end st =
     (case st of (max_w2_for_current_p1, min_w2_for_current_p1, L) \<Rightarrow>
        (case list_index (w2_list L) max_w2_for_current_p1 of
           Inl e \<Rightarrow> Inl e
         | Inr k \<Rightarrow>
            (if k < length (p2_list L) then
               (case list_index (w2_list L) min_w2_for_current_p1 of
                  Inl e \<Rightarrow> Inl e
                | Inr k' \<Rightarrow>
                   (if k' < length (p2_list L) then
                      Inr (L\<lparr>max_w2_list := max_w2_list L @ [max_w2_for_current_p1],
                             max_p2_list := max_p2_list L @ [p2_list L ! k],
                             min_w2_list := min_w2_list L @ [min_w2_for_current_p1],
                             min_p2_list := min_p2_list L @ [p2_list L ! k']\<rparr>)
                    else Inl IndexError))
             else Inl IndexError)))"

fun p_w_outer ::
  "integrator \<Rightarrow> globals \<Rightarrow> store \<Rightarrow> rhs_fun \<Rightarrow> real \<Rightarrow> bool \<Rightarrow> real \<Rightarrow> real list \<Rightarrow> real list
     \<Rightarrow> sweep_lists \<Rightarrow> error + sweep_lists" where
  "p_w_outer odeint G s rhs w_val show_level_curve w_err [] iter_p2 L = Inr L"
| "p_w_outer odeint G s rhs w_val show_level_curve w_err (p1 # iter_p1) iter_p2 L =
     (case p_w_inner odeint G s rhs w_val show_level_curve w_err p1 iter_p2
             (Scalar 0, Scalar 9999, L) of
        Inl e \<Rightarrow> Inl e
      | Inr st \<Rightarrow>
         (case p_w_row_end st of
            Inl e \<Rightarrow> Inl e
          | Inr L' \<Rightarrow>
             p_w_outer odeint G s rhs w_val show_level_curve w_err iter_p1 iter_p2 L'))"

definition p_w_plot ::
  "integrator \<Rightarrow> globals \<Rightarrow> store \<Rightarrow> rhs_fun \<Rightarrow> real \<Rightarrow> bool \<Rightarrow> int \<Rightarrow> real \<Rightarrow> real \<Rightarrow> real
     \<Rightarrow> error + sweep_lists" where
  "p_w_plot odeint G s rhs w_val show_level_curve iter_n w_err angle_start angle_end =
     (case linspace angle_start angle_end iter_n of
        Inl e \<Rightarrow> Inl e
      | Inr iter_p1 \<Rightarrow>
         (case linspace angle_start angle_end iter_n of
            Inl e \<Rightarrow> Inl e
          | Inr iter_p2 \<Rightarrow>
             p_w_outer odeint G s rhs w_val show_level_curve w_err iter_p1 iter_p2
               empty_lists))"

subsection \<open>A concrete integrator for concrete runs\<close>

text \<open>
  The forward Euler scheme on the requested time grid serves as the integrator wherever a
  statement below runs a driver on concrete data. It is used only with the right-hand
  side that vanishes identically, for which the exact solution, Euler's and LSODA's are
  the same constant trajectory: one copy of the initial state per sample time.
\<close>

fun euler_steps :: "rhs_fun \<Rightarrow> real list \<Rightarrow> state \<Rightarrow> real \<Rightarrow> real list \<Rightarrow> error + state list" where
  "euler_steps rhs p v t [] = Inr []"
| "euler_steps rhs p (a, b, c, d) t (t' # ts) =
     (case rhs (a, b, c, d) t p of
        Inl e \<Rightarrow> Inl e
      | Inr (fa, fb, fc, fd) \<Rightarrow>
         (case euler_steps rhs p
                 (a + (t' - t) * fa, b + (t' - t) * fb, c + (t' - t) * fc, d + (t' - t) * fd)
                 t' ts of
            Inl e \<Rightarrow> Inl e
          | Inr vs \<Rightarrow>
             Inr ((a + (t' - t) * fa, b + (t' - t) * fb, c + (t' - t) * fc,
                   d + (t' - t) * fd) # vs)))"

definition euler_odeint :: integrator where
  "euler_odeint rhs ic ts p atol rtol =
     (case ts of
        [] \<Rightarrow> Inr []
      | t0 # rest \<Rightarrow>
         (case euler_steps rhs p ic t0 rest of Inl e \<Rightarrow> Inl e | Inr vs \<Rightarrow> Inr (ic # vs)))"

definition zero_rhs :: rhs_fun where
  "zero_rhs v t p = Inr (0, 0, 0, 0)"

subsection \<open>The substitution the small-angle model is derived by\<close>

text \<open>
  The specification derives the small-angle model from the exact one by replacing
  \<open>sin(x)\<close> by \<open>x\<close>, \<open>cos(x)\<close> by \<open>1\<close> and dropping the terms quadratic in the velocities.
  \<open>dp_rhs_substituted sn cs q\<close> is the body of \<open>dp_rhs\<close> with \<open>sn\<close> for \<open>sin\<close>, \<open>cs\<close> for
  \<open>cos\<close> and the factor \<open>q\<close> on each term that contains \<open>w1*w1\<close> or \<open>w2*w2\<close>: with
  \<open>sin\<close>, \<open>cos\<close> and \<open>q = 1\<close> it is \<open>dp_rhs\<close> itself, with the identity, the constant 1 and
  \<open>q = 0\<close> it is the substitution the specification describes.
\<close>

fun dp_rhs_substituted ::
  "(real \<Rightarrow> real) \<Rightarrow> (real \<Rightarrow> real) \<Rightarrow> real \<Rightarrow> state \<Rightarrow> real list \<Rightarrow> state" where
  "dp_rhs_substituted sn cs q (p1, w1, p2, w2) [m1, m2, l1, l2, g] =
     (let w1_dot = (-(m1+m2)*g*sn p1 - q*(m2*l2*w2*w2*sn (p1-p2))
                     - q*(m2*cs (p1-p2)*l1*w1*w1*sn (p1-p2))
                     + m2*g*cs (p1-p2)*sn p2)
                   / ((m1+m2)*l1 - m2*l1*(cs (p1-p2) * cs (p1-p2)));
          w2_dot = (q*(l1*w1*w1*2*sn (p1-p2)) - g*sn p2 - l1*w1_dot*cs (p1-p2)) / l2
      in (w1, w1_dot, w2, w2_dot))"
| "dp_rhs_substituted sn cs q v p = (0, 0, 0, 0)"

text \<open>The four components of a returned derivative list (0 where the call failed).\<close>

definition phi1_dot_of :: "error + state \<Rightarrow> real" where
  "phi1_dot_of r = (case r of Inr (f0, f1, f2, f3) \<Rightarrow> f0 | Inl e \<Rightarrow> 0)"

definition omega1_dot_of :: "error + state \<Rightarrow> real" where
  "omega1_dot_of r = (case r of Inr (f0, f1, f2, f3) \<Rightarrow> f1 | Inl e \<Rightarrow> 0)"

definition phi2_dot_of :: "error + state \<Rightarrow> real" where
  "phi2_dot_of r = (case r of Inr (f0, f1, f2, f3) \<Rightarrow> f2 | Inl e \<Rightarrow> 0)"

definition omega2_dot_of :: "error + state \<Rightarrow> real" where
  "omega2_dot_of r = (case r of Inr (f0, f1, f2, f3) \<Rightarrow> f3 | Inl e \<Rightarrow> 0)"


subsection \<open>What one grid point contributes\<close>

text \<open>\<open>sweep_point \<dots> w\<close>: the integration from \<open>ic\<close> with parameter values \<open>pv\<close> returns a
  trajectory, \<open>find_vertical\<close> returns for its angle columns and the lengths \<open>la\<close>, \<open>lb\<close>,
  and \<open>w\<close> is the value of \<open>-w2_arr[t_index]\<close>.\<close>

definition sweep_point ::
  "integrator \<Rightarrow> rhs_fun \<Rightarrow> state \<Rightarrow> real list \<Rightarrow> real list \<Rightarrow> real \<Rightarrow> real \<Rightarrow> real \<Rightarrow> real
     \<Rightarrow> obs \<Rightarrow> bool" where
  "sweep_point odeint rhs ic ts pv atol rtol la lb w =
     (case odeint rhs ic ts pv atol rtol of
        Inl e \<Rightarrow> False
      | Inr v_sol \<Rightarrow>
         (case find_vertical la lb (column0 v_sol) (column2 v_sol) of
            Inl e \<Rightarrow> False
          | Inr t_index \<Rightarrow> neg_item (column3 v_sol) t_index = Inr w))"

subsection \<open>Module state for concrete runs\<close>

text \<open>The notebook's module-level values, with the initial angles at 0 and a time grid of
  two samples so that concrete runs stay small.\<close>

definition demo_store :: store where
  "demo_store = \<lparr>cells = (\<lambda>a. None)(0 \<mapsto> [1, 1, 1, 1, 98/10]), next_addr = 1\<rparr>"

definition demo_globals :: globals where
  "demo_globals =
     \<lparr>glob_m1 = 1, glob_m2 = 1, glob_g = 98/10, glob_l1 = 1, glob_l2 = 1,
      glob_p1 = 0, glob_w1 = 0, glob_p2 = 0, glob_w2 = 0,
      glob_p = 0, glob_IC = (0, 0, 0, 0), glob_N = 2, glob_t_end = pi/2,
      glob_t_interval = [0, pi/2], glob_abserr = 1/10^8, glob_relerr = 1/10^6\<rparr>"

lemmas run_defs = length_plot_def mass_plot_def p_w_plot_def linspace_def list_copy_def
  store_setitem_def load_def euler_odeint_def zero_rhs_def find_vertical_def
  column0_def column2_def column3_def demo_store_def demo_globals_def upt_rec
  p_w_row_end_def empty_lists_def neg_item_def truth_of_def Let_def

section \<open>Properties of the right-hand sides\<close>

lemma dp_rhs_closed_form:
  assumes "(m1+m2)*l1 - m2*l1*(cos (phi1-phi2))^2 \<noteq> 0" and "l2 \<noteq> 0"
  shows "dp_rhs (phi1, omega1, phi2, omega2) t [m1, m2, l1, l2, g] =
    Inr (omega1,
         standard_omega1_dot (phi1, omega1, phi2, omega2) [m1, m2, l1, l2, g],
         omega2,
         standard_omega2_dot (phi1, omega1, phi2, omega2) [m1, m2, l1, l2, g]
           + l1*omega1^2*sin (phi1-phi2) / l2)"
proof -
  define D where "D = standard_omega1_dot (phi1, omega1, phi2, omega2) [m1, m2, l1, l2, g]"
  have den: "(m1+m2)*l1 - m2*l1*(cos (phi1-phi2) * cos (phi1-phi2)) \<noteq> 0"
    using assms(1) by (simp add: power2_eq_square)
  have w1: "(-(m1+m2)*g*sin phi1 - m2*l2*omega2*omega2*sin (phi1-phi2)
              - m2*cos (phi1-phi2)*l1*omega1*omega1*sin (phi1-phi2)
              + m2*g*cos (phi1-phi2)*sin phi2)
            / ((m1+m2)*l1 - m2*l1*(cos (phi1-phi2) * cos (phi1-phi2))) = D"
    by (simp add: D_def standard_omega1_dot_def power2_eq_square mult.assoc)
  have w2: "(l1*omega1*omega1*2*sin (phi1-phi2) - g*sin phi2 - l1*D*cos (phi1-phi2)) / l2
            = standard_omega2_dot (phi1, omega1, phi2, omega2) [m1, m2, l1, l2, g]
              + l1*omega1^2*sin (phi1-phi2) / l2"
    unfolding standard_omega2_dot_def D_def [symmetric]
    by (simp add: power2_eq_square add_divide_distrib diff_divide_distrib)
  have "dp_rhs (phi1, omega1, phi2, omega2) t [m1, m2, l1, l2, g] =
    Inr (omega1, D, omega2,
      (l1*omega1*omega1*2*sin (phi1-phi2) - g*sin phi2 - l1*D*cos (phi1-phi2)) / l2)"
    using den assms(2) by (simp only: dp_rhs.simps if_False Let_def w1)
  then have "dp_rhs (phi1, omega1, phi2, omega2) t [m1, m2, l1, l2, g] =
    Inr (omega1, D, omega2,
      standard_omega2_dot (phi1, omega1, phi2, omega2) [m1, m2, l1, l2, g]
        + l1*omega1^2*sin (phi1-phi2) / l2)"
    by (simp only: w2)
  then show ?thesis
    by (simp only: D_def)
qed

text \<open>
  Claim C1. The specification says that \<open>dp_rhs\<close> returns the standard closed-form
  double-pendulum derivatives, with no extra factor on the \<open>omega1^2\<close> term of
  \<open>omega2_dot\<close>. The code multiplies that term by 2 (\<open>l1*w1*w1*2*sin(p1-p2)\<close>): at the state
  \<open>(pi/2, 1, 0, 0)\<close> with parameters \<open>(1, 1, 1, 1, 9.8)\<close>, whose denominators are 2 and 1, the
  code returns \<open>omega2_dot = 2\<close> where the standard equation gives 1. The other three
  components agree.
\<close>

theorem dp_rhs_omega2_dot_doubled:
  "dp_rhs (pi/2, 1, 0, 0) 0 [1, 1, 1, 1, 98/10] = Inr (1, - (98/10), 0, 2)
   \<and> standard_dp_rhs (pi/2, 1, 0, 0) [1, 1, 1, 1, 98/10] = (1, - (98/10), 0, 1)
   \<and> (1 + 1) * 1 - 1 * 1 * (cos (pi/2 - 0))^2 = (2::real)"
  by (simp add: standard_dp_rhs_def standard_omega1_dot_def standard_omega2_dot_def Let_def)

lemma sa_dp_rhs_fixed_point_real:
  "0 < m1 \<Longrightarrow> 0 < m2 \<Longrightarrow> 0 < l1 \<Longrightarrow> 0 < l2 \<Longrightarrow> 0 < g \<Longrightarrow>
   sa_dp_rhs (0, 0, 0, 0) t [m1, m2, l1, l2, g] = Inr (0, 0, 0, 0)"
  by simp

lemma round_half_even_zero: "round_half_even 0 = 0"
  by (simp add: round_half_even_def)

lemma nearest_double_zero: "nearest_double 0 = 0"
  by (simp add: nearest_double_def round_half_even_zero)

lemma rnd_zero: "rnd 0 = Fl 0"
  by (simp add: rnd_def nearest_double_zero)

lemma rnd_not_NaN: "rnd x \<noteq> NaN"
  by (simp add: rnd_def)

lemma rnd_nonneg_cases: "0 \<le> x \<Longrightarrow> rnd x = PInf \<or> rnd x = Fl (nearest_double x)"
  by (simp add: rnd_def)

lemma nearest_double_underflow:
  assumes "0 \<le> x" "x < 1 / 2^1075"
  shows "nearest_double x = 0"
proof -
  have small: "\<bar>x\<bar> < 2 powr (-1022)"
  proof -
    have "(1::real) / 2^1075 \<le> 1 / 2^1022"
      by (intro divide_left_mono power_increasing) auto
    also have "\<dots> = 2 powr (-1022)"
      by (simp add: powr_minus_divide)
    finally show ?thesis using assms by simp
  qed
  then have e: "ulp_exp x = -1074" by (simp add: ulp_exp_def)
  have p: "(2::real) powr of_int (-1074) = 1 / 2^1074"
    by (simp add: powr_minus_divide)
  have y: "x / (1 / 2^1074) = x * 2^1074" by simp
  have "x * 2^1074 < (1 / 2^1075) * 2^1074"
    using assms(2) by (intro mult_strict_right_mono) auto
  also have "\<dots> = (1::real)/2" by simp
  finally have lt: "x * 2^1074 < 1/2" .
  have ge: "0 \<le> x * 2^1074" using assms(1) by simp
  from lt ge have fl: "\<lfloor>x * 2^1074\<rfloor> = 0" by (simp add: floor_eq_iff)
  have "round_half_even (x * 2^1074) = 0"
    using lt fl by (simp add: round_half_even_def)
  then show ?thesis
    unfolding nearest_double_def e p y by simp
qed

lemma rnd_underflow: "0 \<le> x \<Longrightarrow> x < 1 / 2^1075 \<Longrightarrow> rnd x = Fl 0"
  using nearest_double_underflow [of x]
  by (simp add: rnd_def)


lemma rnd_power_of_two:
  fixes k :: int
  assumes "-1022 \<le> k" "k \<le> 1023"
  shows "rnd (2 powr of_int k) = Fl (2 powr of_int k)"
proof -
  let ?x = "(2::real) powr of_int k"
  have pos: "0 < ?x" by simp
  have "?x \<le> 2 powr of_int 1023"
    using assms(2) by (intro powr_mono) auto
  also have "\<dots> = 2^1023" by simp
  also have "\<dots> < (2::real)^1024 - 2^970" by simp
  finally have hi: "\<not> 2^1024 - 2^970 \<le> ?x" by simp
  have lo: "\<not> ?x \<le> - (2^1024 - 2^970)"
  proof -
    have "- ((2::real)^1024 - 2^970) < 0" by simp
    with pos show ?thesis by linarith
  qed
  have "(2::real) powr (-1022) \<le> ?x"
    using assms(1) by (intro powr_mono) auto
  then have e: "ulp_exp ?x = k - 52"
    by (simp add: ulp_exp_def)
  have "?x / 2 powr of_int (k - 52) = 2 powr 52"
    by (simp add: powr_diff [symmetric])
  also have "\<dots> = of_int (2^52)" by simp
  finally have q: "?x / 2 powr of_int (k - 52) = of_int (2^52)" .
  have r: "round_half_even (of_int (2^52)) = 2^52"
    unfolding round_half_even_def by simp
  have "nearest_double ?x = of_int (2^52) * 2 powr of_int (k - 52)"
    unfolding nearest_double_def e q r ..
  also have "of_int (2^52) = (2::real) powr 52" by simp
  also have "2 powr 52 * 2 powr of_int (k - 52) = (2::real) powr (52 + of_int (k - 52))"
    by (rule powr_add [symmetric])
  also have "52 + of_int (k - 52) = (of_int k :: real)" by simp
  finally have "nearest_double ?x = ?x" .
  with hi lo show ?thesis by (simp only: rnd_def if_False)
qed

lemma rnd_doubles:
  "rnd 1 = Fl 1" "rnd 8 = Fl 8" "rnd (1 / 2^100) = Fl (1 / 2^100)"
  "rnd (1 / 2^1000) = Fl (1 / 2^1000)"
  using rnd_power_of_two [of 0] rnd_power_of_two [of 3] rnd_power_of_two [of "-100"]
    rnd_power_of_two [of "-1000"]
  by (simp_all add: powr_minus_divide)

text \<open>
  Claim C8. The specification says that the small-angle right-hand side, applied to the
  zero state with any positive parameters, returns the zero derivative vector. The call
  computes in doubles, where that fails for positive parameters whose product
  \<open>m1*l1*l1\<close> rounds to zero (the quotient then raises) or whose product \<open>g*l1\<close> or sum
  \<open>m1+m2\<close> overflows (the result is then NaN). The statement that holds: for positive
  parameters for which, in double arithmetic, \<open>g*l1\<close> and \<open>m1+m2\<close> do not overflow and
  \<open>m1*l1*l1\<close> is not zero, the call at the zero state returns the zero vector.
\<close>

theorem sa_dp_rhs_double_fixed_point:
  assumes "0 < m1" "0 < m2" "0 < l1" "0 < l2" "0 < g"
    and "fmul (Fl g) (Fl l1) \<noteq> PInf"
    and "fadd (Fl m1) (Fl m2) \<noteq> PInf"
    and "fmul (fmul (Fl m1) (Fl l1)) (Fl l1) \<noteq> Fl 0"
  shows "sa_dp_rhs_double (Fl 0, Fl 0, Fl 0, Fl 0) t [Fl m1, Fl m2, Fl l1, Fl l2, Fl g]
           = Inr (Fl 0, Fl 0, Fl 0, Fl 0)"
proof -
  have mul0: "fmul (Fl x) (Fl 0) = Fl 0" for x
    by (simp add: rnd_zero)
  from assms(6) rnd_nonneg_cases [of "g * l1"] assms(3,5)
  obtain a where A: "fmul (Fl g) (Fl l1) = Fl a" by auto
  from assms(7) rnd_nonneg_cases [of "m1 + m2"] assms(1,2)
  obtain c where C: "fadd (Fl m1) (Fl m2) = Fl c" by auto
  have D: "fmul (fadd (Fl m1) (Fl m2)) (Fl 0) = Fl 0"
    by (simp only: C mul0)
  have E: "fsub (fmul (Fl m2) (Fl 0)) (fmul (fadd (Fl m1) (Fl m2)) (Fl 0)) = Fl 0"
    unfolding D mul0 by (simp add: fsub_def rnd_zero)
  have F: "fmul (fmul (Fl g) (Fl l1))
             (fsub (fmul (Fl m2) (Fl 0)) (fmul (fadd (Fl m1) (Fl m2)) (Fl 0))) = Fl 0"
  proof -
    have "fmul (fmul (Fl g) (Fl l1)) (Fl 0) = Fl 0"
      by (simp only: A mul0)
    then show ?thesis by (simp only: E)
  qed
  have G: "fmul (fmul (Fl m1) (Fl l1)) (Fl l1) \<noteq> NaN"
    using rnd_nonneg_cases [of "m1 * l1"] assms(1,3) rnd_not_NaN
    by auto
  have w1: "fdiv (Fl 0) (fmul (fmul (Fl m1) (Fl l1)) (Fl l1)) = Inr (Fl 0)"
    using assms(8) G
    by (cases "fmul (fmul (Fl m1) (Fl l1)) (Fl l1)") (simp_all add: rnd_zero)
  have K: "fneg (fadd (fmul (Fl g) (Fl 0)) (fmul (Fl l1) (Fl 0))) = Fl 0"
    by (simp add: mul0 rnd_zero)
  have w2: "fdiv (Fl 0) (Fl l2) = Inr (Fl 0)"
    using assms(4) by (simp add: rnd_zero)
  show ?thesis
    by (simp only: sa_dp_rhs_double.simps F w1 K w2 sum.case)
qed

theorem sa_dp_rhs_double_fixed_point_witness:
  "(0::real) < 1 \<and> (0::real) < 8
   \<and> fmul (Fl 8) (Fl 1) = Fl 8 \<and> fadd (Fl 1) (Fl 1) \<noteq> PInf
   \<and> fmul (fmul (Fl 1) (Fl 1)) (Fl 1) = Fl 1
   \<and> sa_dp_rhs_double (Fl 0, Fl 0, Fl 0, Fl 0) (Fl 0) [Fl 1, Fl 1, Fl 1, Fl 1, Fl 8]
       = Inr (Fl 0, Fl 0, Fl 0, Fl 0)"
proof -
  have h6: "fmul (Fl 8) (Fl 1) = Fl 8" by (simp add: rnd_doubles)
  have h7: "fadd (Fl 1) (Fl 1) \<noteq> PInf" by (simp add: rnd_def)
  have h8: "fmul (fmul (Fl 1) (Fl 1)) (Fl 1) = Fl 1" by (simp add: rnd_doubles)
  have "sa_dp_rhs_double (Fl 0, Fl 0, Fl 0, Fl 0) (Fl 0) [Fl 1, Fl 1, Fl 1, Fl 1, Fl 8]
       = Inr (Fl 0, Fl 0, Fl 0, Fl 0)"
    using sa_dp_rhs_double_fixed_point [of 1 1 1 1 8 "Fl 0"] h7
    by (simp only: h6 h8) simp
  with h6 h7 h8 show ?thesis by simp
qed

text \<open>
  With \<open>m1 = 2^-1000\<close>, \<open>l1 = 2^-100\<close>, \<open>m2 = l2 = 1\<close> and \<open>g = 8\<close>, all positive doubles, the
  product \<open>m1*l1 = 2^-1100\<close> is below half the smallest positive double and rounds to
  zero, so \<open>m1*l1*l1\<close> is zero and the quotient raises \<open>ZeroDivisionError\<close>.
\<close>

theorem sa_dp_rhs_double_underflow:
  "(0::real) < 1 / 2^1000 \<and> (0::real) < 1 / 2^100 \<and> (0::real) < 1 \<and> (0::real) < 8
   \<and> rnd (1 / 2^1000) = Fl (1 / 2^1000) \<and> rnd (1 / 2^100) = Fl (1 / 2^100)
   \<and> rnd 1 = Fl 1 \<and> rnd 8 = Fl 8
   \<and> fmul (Fl (1 / 2^1000)) (Fl (1 / 2^100)) = Fl 0
   \<and> sa_dp_rhs_double (Fl 0, Fl 0, Fl 0, Fl 0) (Fl 0)
        [Fl (1 / 2^1000), Fl 1, Fl (1 / 2^100), Fl 1, Fl 8] = Inl DivisionByZero"
proof -
  have u: "fmul (Fl (1 / 2^1000)) (Fl (1 / 2^100)) = Fl 0"
    by (simp add: rnd_underflow)
  then have "fmul (fmul (Fl (1 / 2^1000)) (Fl (1 / 2^100))) (Fl (1 / 2^100)) = Fl 0"
    by (simp add: rnd_zero)
  then have "sa_dp_rhs_double (Fl 0, Fl 0, Fl 0, Fl 0) (Fl 0)
        [Fl (1 / 2^1000), Fl 1, Fl (1 / 2^100), Fl 1, Fl 8] = Inl DivisionByZero"
    by (simp only: sa_dp_rhs_double.simps, simp)
  with u rnd_doubles show ?thesis by simp
qed


text \<open>With \<open>g = 2^1023\<close> and \<open>l1 = 2\<close> the product \<open>g*l1\<close> overflows to infinity, and infinity
  times the zero factor is NaN.\<close>

lemma sa_dp_rhs_double_overflow:
  "sa_dp_rhs_double (Fl 0, Fl 0, Fl 0, Fl 0) (Fl 0) [Fl 1, Fl 1, Fl 2, Fl 1, Fl (2^1023)]
     = Inr (Fl 0, NaN, Fl 0, NaN)"
proof -
  have a: "fmul (Fl (2^1023)) (Fl 2) = PInf"
    by (simp add: rnd_def)
  have "rnd 2 = Fl 2" "rnd 4 = Fl 4"
    using rnd_power_of_two [of 1] rnd_power_of_two [of 2] by simp_all
  then have g: "fmul (fmul (Fl 1) (Fl 2)) (Fl 2) = Fl 4"
    by simp
  have e: "fsub (fmul (Fl 1) (Fl 0)) (fmul (fadd (Fl 1) (Fl 1)) (Fl 0)) = Fl 0"
    using \<open>rnd 2 = Fl 2\<close> by (simp add: fsub_def rnd_zero)
  show ?thesis
    by (simp only: sa_dp_rhs_double.simps a g e) (simp add: rnd_zero)
qed

lemma dp_denominator_pos:
  fixes m1 m2 l1 :: real
  assumes "0 < m1" "0 < m2" "0 < l1"
  shows "0 < (m1+m2)*l1 - m2*l1*(cos x * cos x)"
proof -
  have "cos x * cos x \<le> 1"
    by (metis abs_cos_le_one abs_mult_self_eq mult_le_one abs_ge_zero abs_mult)
  then have "m2*l1*(cos x * cos x) \<le> m2*l1*1"
    using assms by (intro mult_left_mono) auto
  moreover have "m2*l1 < (m1+m2)*l1" using assms by (simp add: algebra_simps)
  ultimately show ?thesis by simp
qed

lemma dp_rhs_positive:
  assumes "0 < m1" "0 < m2" "0 < l1" "0 < l2"
  shows "dp_rhs v t [m1, m2, l1, l2, g] = Inr (dp_rhs_substituted sin cos 1 v [m1, m2, l1, l2, g])"
proof -
  obtain p1 w1 p2 w2 where v: "v = (p1, w1, p2, w2)" by (cases v) auto
  have "0 < (m1+m2)*l1 - m2*l1*(cos (p1-p2) * cos (p1-p2))"
    by (rule dp_denominator_pos [OF assms(1,2,3)])
  then have ne: "(m1+m2)*l1 - m2*l1*(cos (p1-p2) * cos (p1-p2)) \<noteq> 0"
    by (metis less_numeral_extra(3))
  from assms(4) have l2: "l2 \<noteq> 0" by simp
  have "dp_rhs (p1, w1, p2, w2) t [m1, m2, l1, l2, g] =
      Inr (dp_rhs_substituted sin cos 1 (p1, w1, p2, w2) [m1, m2, l1, l2, g])"
    using ne l2
    by (simp only: dp_rhs.simps dp_rhs_substituted.simps if_False Let_def mult_1)
  then show ?thesis by (simp only: v)
qed

lemma sa_dp_rhs_positive:
  assumes "0 < m1" "0 < m2" "0 < l1" "0 < l2"
  shows "sa_dp_rhs v t [m1, m2, l1, l2, g] =
           Inr (dp_rhs_substituted (\<lambda>x. x) (\<lambda>x. 1) 0 v [m1, m2, l1, l2, g])"
proof -
  obtain p1 w1 p2 w2 where v: "v = (p1, w1, p2, w2)" by (cases v) auto
  show ?thesis using assms unfolding v
    by (simp add: Let_def field_simps)
qed

lemma sa_dp_rhs_closed:
  assumes "0 < m1" "0 < m2" "0 < l1" "0 < l2"
  shows "sa_dp_rhs (phi1, omega1, phi2, omega2) t [m1, m2, l1, l2, g] =
     Inr (omega1, g*(m2*phi2 - (m1+m2)*phi1)/(m1*l1), omega2,
          - (g*phi2 + l1*(g*(m2*phi2 - (m1+m2)*phi1)/(m1*l1)))/l2)"
  using assms by (simp add: Let_def field_simps)

lemma omega1_dot_derivative:
  fixes m1 m2 l1 l2 g a b c d :: real
  assumes "0 < m1" "0 < m2" "0 < l1"
  shows "((\<lambda>s. (-(m1+m2)*g*sin (s*a) - 1*(m2*l2*(s*d)*(s*d)*sin (s*a - s*c))
       - 1*(m2*cos (s*a - s*c)*l1*(s*b)*(s*b)*sin (s*a-s*c)) + m2*g*cos (s*a-s*c)*sin (s*c))
       / ((m1+m2)*l1 - m2*l1*(cos (s*a-s*c)*cos (s*a-s*c))))
     has_real_derivative (g*(m2*c - (m1+m2)*a)/(m1*l1))) (at 0)"
  using assms
  by (auto intro!: derivative_eq_intros simp: field_simps)

lemma omega2_dot_derivative:
  fixes l1 l2 g a b c :: real and W :: "real \<Rightarrow> real"
  assumes "0 < l2" and W: "(W has_real_derivative A) (at 0)" and W0: "W 0 = 0"
  shows "((\<lambda>s. (1*(l1*(s*b)*(s*b)*2*sin (s*a - s*c)) - g*sin (s*c) - l1*W s*cos (s*a - s*c)) / l2)
     has_real_derivative (- (g*c + l1*A)/l2)) (at 0)"
  using assms(1) W0
  by (auto intro!: derivative_eq_intros W simp: field_simps)


lemma standard_omega1_dot_derivative:
  fixes m1 m2 l1 l2 g a b c d :: real
  assumes "0 < m1" "0 < m2" "0 < l1"
  shows "((\<lambda>s. standard_omega1_dot (s*a, s*b, s*c, s*d) [m1, m2, l1, l2, g])
     has_real_derivative (g*(m2*c - (m1+m2)*a)/(m1*l1))) (at 0)"
  unfolding standard_omega1_dot_def prod.case list.case
  using assms
  by (auto intro!: derivative_eq_intros simp: field_simps)

lemma standard_omega2_dot_derivative:
  fixes m1 m2 l1 l2 g a b c d :: real
  assumes "0 < m1" "0 < m2" "0 < l1" "0 < l2"
  shows "((\<lambda>s. standard_omega2_dot (s*a, s*b, s*c, s*d) [m1, m2, l1, l2, g])
     has_real_derivative (- (g*c + l1*(g*(m2*c - (m1+m2)*a)/(m1*l1)))/l2)) (at 0)"
proof -
  have z: "standard_omega1_dot (0 * a, 0 * b, 0 * c, 0 * d) [m1, m2, l1, l2, g] = 0"
    by (simp add: standard_omega1_dot_def)
  show ?thesis
    unfolding standard_omega2_dot_def prod.case list.case
    using assms(4) z
    by (auto intro!: derivative_eq_intros standard_omega1_dot_derivative [OF assms(1,2,3)]
        simp: field_simps)
qed

text \<open>
  Claim C5. For positive parameters the small-angle right-hand side is the first-order
  linearisation of the exact one at the origin. Its derivatives are
  \<open>omega1_dot = g*(m2*phi2 - (m1+m2)*phi1)/(m1*l1)\<close> and
  \<open>omega2_dot = -(g*phi2 + l1*omega1_dot)/l2\<close>; they are what the body of \<open>dp_rhs\<close> becomes
  when \<open>sin(x)\<close> is replaced by \<open>x\<close>, \<open>cos(x)\<close> by \<open>1\<close> and the terms quadratic in the
  velocities are dropped; and, \<open>dp_rhs\<close> vanishing at the origin, each component of
  \<open>sa_dp_rhs\<close> at a state \<open>v\<close> is the derivative at \<open>s = 0\<close> of that component of \<open>dp_rhs\<close>
  along \<open>s * v\<close>. The same derivatives are obtained from the standard equations
  (\<open>standard_omega1_dot\<close>, \<open>standard_omega2_dot\<close>), from which \<open>dp_rhs\<close> differs only in a
  term quadratic in \<open>omega1\<close>. So the reuse of \<open>omega1_dot\<close> inside \<open>omega2_dot\<close> agrees
  with the full linearisation.
\<close>

theorem sa_dp_rhs_linearises_dp_rhs:
  assumes "0 < m1" "0 < m2" "0 < l1" "0 < l2" "0 < g"
  shows
    "sa_dp_rhs (phi1, omega1, phi2, omega2) t [m1, m2, l1, l2, g] =
       Inr (omega1, g*(m2*phi2 - (m1+m2)*phi1)/(m1*l1), omega2,
            - (g*phi2 + l1*(g*(m2*phi2 - (m1+m2)*phi1)/(m1*l1)))/l2)
     \<and> dp_rhs (phi1, omega1, phi2, omega2) t [m1, m2, l1, l2, g] =
         Inr (dp_rhs_substituted sin cos 1 (phi1, omega1, phi2, omega2) [m1, m2, l1, l2, g])
     \<and> sa_dp_rhs (phi1, omega1, phi2, omega2) t [m1, m2, l1, l2, g] =
         Inr (dp_rhs_substituted (\<lambda>x. x) (\<lambda>x. 1) 0 (phi1, omega1, phi2, omega2)
                [m1, m2, l1, l2, g])
     \<and> dp_rhs (0, 0, 0, 0) t [m1, m2, l1, l2, g] = Inr (0, 0, 0, 0)
     \<and> ((\<lambda>s. phi1_dot_of (dp_rhs (s*phi1, s*omega1, s*phi2, s*omega2) t [m1, m2, l1, l2, g]))
          has_real_derivative
          phi1_dot_of (sa_dp_rhs (phi1, omega1, phi2, omega2) t [m1, m2, l1, l2, g])) (at 0)
     \<and> ((\<lambda>s. omega1_dot_of (dp_rhs (s*phi1, s*omega1, s*phi2, s*omega2) t [m1, m2, l1, l2, g]))
          has_real_derivative
          omega1_dot_of (sa_dp_rhs (phi1, omega1, phi2, omega2) t [m1, m2, l1, l2, g])) (at 0)
     \<and> ((\<lambda>s. phi2_dot_of (dp_rhs (s*phi1, s*omega1, s*phi2, s*omega2) t [m1, m2, l1, l2, g]))
          has_real_derivative
          phi2_dot_of (sa_dp_rhs (phi1, omega1, phi2, omega2) t [m1, m2, l1, l2, g])) (at 0)
     \<and> ((\<lambda>s. omega2_dot_of (dp_rhs (s*phi1, s*omega1, s*phi2, s*omega2) t [m1, m2, l1, l2, g]))
          has_real_derivative
          omega2_dot_of (sa_dp_rhs (phi1, omega1, phi2, omega2) t [m1, m2, l1, l2, g])) (at 0)
     \<and> ((\<lambda>s. standard_omega1_dot (s*phi1, s*omega1, s*phi2, s*omega2) [m1, m2, l1, l2, g])
          has_real_derivative
          omega1_dot_of (sa_dp_rhs (phi1, omega1, phi2, omega2) t [m1, m2, l1, l2, g])) (at 0)
     \<and> ((\<lambda>s. standard_omega2_dot (s*phi1, s*omega1, s*phi2, s*omega2) [m1, m2, l1, l2, g])
          has_real_derivative
          omega2_dot_of (sa_dp_rhs (phi1, omega1, phi2, omega2) t [m1, m2, l1, l2, g])) (at 0)"
proof -
  let ?p = "[m1, m2, l1, l2, g]"
  let ?A = "g*(m2*phi2 - (m1+m2)*phi1)/(m1*l1)"
  let ?W = "\<lambda>s. (-(m1+m2)*g*sin (s*phi1) - 1*(m2*l2*(s*omega2)*(s*omega2)*sin (s*phi1 - s*phi2))
       - 1*(m2*cos (s*phi1 - s*phi2)*l1*(s*omega1)*(s*omega1)*sin (s*phi1 - s*phi2))
       + m2*g*cos (s*phi1 - s*phi2)*sin (s*phi2))
       / ((m1+m2)*l1 - m2*l1*(cos (s*phi1 - s*phi2)*cos (s*phi1 - s*phi2)))"
  note pos = assms(1-4)
  have sa: "sa_dp_rhs (phi1, omega1, phi2, omega2) t ?p =
       Inr (omega1, ?A, omega2, - (g*phi2 + l1*?A)/l2)"
    by (rule sa_dp_rhs_closed [OF pos])
  have dp: "dp_rhs v t ?p = Inr (dp_rhs_substituted sin cos 1 v ?p)" for v
    by (rule dp_rhs_positive [OF pos])
  have sub: "sa_dp_rhs (phi1, omega1, phi2, omega2) t ?p =
         Inr (dp_rhs_substituted (\<lambda>x. x) (\<lambda>x. 1) 0 (phi1, omega1, phi2, omega2) ?p)"
    by (rule sa_dp_rhs_positive [OF pos])
  have zero: "dp_rhs (0, 0, 0, 0) t ?p = Inr (0, 0, 0, 0)"
    by (simp add: dp Let_def)
  have W: "(?W has_real_derivative ?A) (at 0)"
    by (rule omega1_dot_derivative [OF assms(1,2,3)])
  have W0: "?W 0 = 0" by simp
  have W2: "((\<lambda>s. (1*(l1*(s*omega1)*(s*omega1)*2*sin (s*phi1 - s*phi2)) - g*sin (s*phi2)
                 - l1*?W s*cos (s*phi1 - s*phi2)) / l2)
     has_real_derivative (- (g*phi2 + l1*?A)/l2)) (at 0)"
    by (rule omega2_dot_derivative [OF assms(4) W W0])
  have c0: "((\<lambda>s. phi1_dot_of (dp_rhs (s*phi1, s*omega1, s*phi2, s*omega2) t ?p))
          has_real_derivative phi1_dot_of (sa_dp_rhs (phi1, omega1, phi2, omega2) t ?p)) (at 0)"
    unfolding dp sa by (auto intro!: derivative_eq_intros simp: phi1_dot_of_def Let_def)
  have c2: "((\<lambda>s. phi2_dot_of (dp_rhs (s*phi1, s*omega1, s*phi2, s*omega2) t ?p))
          has_real_derivative phi2_dot_of (sa_dp_rhs (phi1, omega1, phi2, omega2) t ?p)) (at 0)"
    unfolding dp sa by (auto intro!: derivative_eq_intros simp: phi2_dot_of_def Let_def)
  have c1: "((\<lambda>s. omega1_dot_of (dp_rhs (s*phi1, s*omega1, s*phi2, s*omega2) t ?p))
          has_real_derivative omega1_dot_of (sa_dp_rhs (phi1, omega1, phi2, omega2) t ?p)) (at 0)"
    unfolding dp sa using W
    by (simp only: omega1_dot_of_def dp_rhs_substituted.simps Let_def sum.case prod.case)
  have c3: "((\<lambda>s. omega2_dot_of (dp_rhs (s*phi1, s*omega1, s*phi2, s*omega2) t ?p))
          has_real_derivative omega2_dot_of (sa_dp_rhs (phi1, omega1, phi2, omega2) t ?p)) (at 0)"
    unfolding dp sa using W2
    by (simp only: omega2_dot_of_def dp_rhs_substituted.simps Let_def sum.case prod.case)
  have s1: "((\<lambda>s. standard_omega1_dot (s*phi1, s*omega1, s*phi2, s*omega2) ?p)
          has_real_derivative omega1_dot_of (sa_dp_rhs (phi1, omega1, phi2, omega2) t ?p)) (at 0)"
    unfolding sa using standard_omega1_dot_derivative [OF assms(1,2,3)]
    by (simp add: omega1_dot_of_def)
  have s3: "((\<lambda>s. standard_omega2_dot (s*phi1, s*omega1, s*phi2, s*omega2) ?p)
          has_real_derivative omega2_dot_of (sa_dp_rhs (phi1, omega1, phi2, omega2) t ?p)) (at 0)"
    unfolding sa using standard_omega2_dot_derivative [OF pos]
    by (simp add: omega2_dot_of_def)
  from sa dp sub zero c0 c1 c2 c3 s1 s3 show ?thesis by blast
qed

theorem sa_dp_rhs_linearises_dp_rhs_witness:
  "(0::real) < 1 \<and> (0::real) < 98/10
   \<and> sa_dp_rhs (1, 0, 2, 0) 0 [1, 1, 1, 1, 98/10] = Inr (0, 0, 0, - (196/10))
   \<and> ((\<lambda>s. omega2_dot_of (dp_rhs (s*1, s*0, s*2, s*0) 0 [1, 1, 1, 1, 98/10]))
          has_real_derivative - (196/10)) (at 0)"
  using sa_dp_rhs_linearises_dp_rhs [of 1 1 1 1 "98/10" 1 0 2 0 0]
  by (simp add: omega2_dot_of_def)


section \<open>Properties of the crossing locator\<close>

lemma find_vertical_loop_total:
  "\<forall>i\<in>set is. i < length p1 \<and> i < length p2 \<Longrightarrow>
   \<exists>c ci. find_vertical_loop l1 l2 p1 p2 is (c0, ci0) = Inr (c, ci)"
  by (induction "is" arbitrary: c0 ci0) (auto simp: Let_def)

lemma find_vertical_loop_index:
  "find_vertical_loop l1 l2 p1 p2 is (c0, ci0) = Inr (c, Some i) \<Longrightarrow>
   ci0 = Some i \<or> i \<in> set is"
  by (induction "is" arbitrary: c0 ci0) (auto simp: Let_def split: if_splits)

lemma find_vertical_loop_spec:
  "\<forall>i\<in>set is. i < length p1 \<and> i < length p2 \<Longrightarrow>
   find_vertical_loop l1 l2 p1 p2 is (c0, ci0) = Inr (c, ci) \<Longrightarrow>
   (ci = ci0 \<and> c = c0 \<and> (\<forall>i\<in>set is. c0 \<le> deviation l1 l2 p1 p2 i)) \<or>
   (\<exists>k<length is. ci = Some (is ! k) \<and> c = deviation l1 l2 p1 p2 (is ! k) \<and> c < c0
       \<and> (\<forall>j<k. c < deviation l1 l2 p1 p2 (is ! j))
       \<and> (\<forall>j<length is. c \<le> deviation l1 l2 p1 p2 (is ! j)))"
proof (induction "is" arbitrary: c0 ci0)
  case Nil
  then show ?case by simp
next
  case (Cons i "is")
  let ?x = "deviation l1 l2 p1 p2 i"
  from Cons.prems(1) have valid: "i < length p1" "i < length p2"
    and rest: "\<forall>i\<in>set is. i < length p1 \<and> i < length p2" by auto
  show ?case
  proof (cases "?x < c0")
    case True
    with Cons.prems(2) valid
    have run: "find_vertical_loop l1 l2 p1 p2 is (?x, Some i) = Inr (c, ci)"
      by (simp add: deviation_def Let_def)
    from Cons.IH [OF rest run] show ?thesis
    proof
      assume a: "ci = Some i \<and> c = ?x \<and> (\<forall>i\<in>set is. ?x \<le> deviation l1 l2 p1 p2 i)"
      have "\<forall>j<length (i # is). c \<le> deviation l1 l2 p1 p2 ((i # is) ! j)"
      proof (intro allI impI)
        fix j assume "j < length (i # is)"
        then show "c \<le> deviation l1 l2 p1 p2 ((i # is) ! j)"
          using a by (cases j) auto
      qed
      with a True have "0 < length (i # is) \<and> ci = Some ((i # is) ! 0)
          \<and> c = deviation l1 l2 p1 p2 ((i # is) ! 0) \<and> c < c0
          \<and> (\<forall>j<0. c < deviation l1 l2 p1 p2 ((i # is) ! j))
          \<and> (\<forall>j<length (i # is). c \<le> deviation l1 l2 p1 p2 ((i # is) ! j))"
        by simp
      then show ?thesis by blast
    next
      assume "\<exists>k<length is. ci = Some (is ! k) \<and> c = deviation l1 l2 p1 p2 (is ! k) \<and> c < ?x
       \<and> (\<forall>j<k. c < deviation l1 l2 p1 p2 (is ! j))
       \<and> (\<forall>j<length is. c \<le> deviation l1 l2 p1 p2 (is ! j))"
      then obtain k where k: "k < length is" "ci = Some (is ! k)"
        "c = deviation l1 l2 p1 p2 (is ! k)" "c < ?x"
        "\<forall>j<k. c < deviation l1 l2 p1 p2 (is ! j)"
        "\<forall>j<length is. c \<le> deviation l1 l2 p1 p2 (is ! j)" by blast
      have b1: "\<forall>j<Suc k. c < deviation l1 l2 p1 p2 ((i # is) ! j)"
      proof (intro allI impI)
        fix j assume "j < Suc k"
        then show "c < deviation l1 l2 p1 p2 ((i # is) ! j)"
          using k(4,5) by (cases j) auto
      qed
      have b2: "\<forall>j<length (i # is). c \<le> deviation l1 l2 p1 p2 ((i # is) ! j)"
      proof (intro allI impI)
        fix j assume "j < length (i # is)"
        then show "c \<le> deviation l1 l2 p1 p2 ((i # is) ! j)"
          using k(4,6) by (cases j) auto
      qed
      from k True b1 b2 have "Suc k < length (i # is) \<and> ci = Some ((i # is) ! Suc k)
          \<and> c = deviation l1 l2 p1 p2 ((i # is) ! Suc k) \<and> c < c0
          \<and> (\<forall>j<Suc k. c < deviation l1 l2 p1 p2 ((i # is) ! j))
          \<and> (\<forall>j<length (i # is). c \<le> deviation l1 l2 p1 p2 ((i # is) ! j))"
        by simp
      then show ?thesis by blast
    qed
  next
    case False
    with Cons.prems(2) valid
    have run: "find_vertical_loop l1 l2 p1 p2 is (c0, ci0) = Inr (c, ci)"
      by (simp add: deviation_def Let_def)
    from Cons.IH [OF rest run] show ?thesis
    proof
      assume "ci = ci0 \<and> c = c0 \<and> (\<forall>i\<in>set is. c0 \<le> deviation l1 l2 p1 p2 i)"
      with False show ?thesis by auto
    next
      assume "\<exists>k<length is. ci = Some (is ! k) \<and> c = deviation l1 l2 p1 p2 (is ! k) \<and> c < c0
       \<and> (\<forall>j<k. c < deviation l1 l2 p1 p2 (is ! j))
       \<and> (\<forall>j<length is. c \<le> deviation l1 l2 p1 p2 (is ! j))"
      then obtain k where k: "k < length is" "ci = Some (is ! k)"
        "c = deviation l1 l2 p1 p2 (is ! k)" "c < c0"
        "\<forall>j<k. c < deviation l1 l2 p1 p2 (is ! j)"
        "\<forall>j<length is. c \<le> deviation l1 l2 p1 p2 (is ! j)" by blast
      have b1: "\<forall>j<Suc k. c < deviation l1 l2 p1 p2 ((i # is) ! j)"
      proof (intro allI impI)
        fix j assume "j < Suc k"
        then show "c < deviation l1 l2 p1 p2 ((i # is) ! j)"
          using k(4,5) False by (cases j) auto
      qed
      have b2: "\<forall>j<length (i # is). c \<le> deviation l1 l2 p1 p2 ((i # is) ! j)"
      proof (intro allI impI)
        fix j assume "j < length (i # is)"
        then show "c \<le> deviation l1 l2 p1 p2 ((i # is) ! j)"
          using k(4,6) False by (cases j) auto
      qed
      from k b1 b2 have "Suc k < length (i # is) \<and> ci = Some ((i # is) ! Suc k)
          \<and> c = deviation l1 l2 p1 p2 ((i # is) ! Suc k) \<and> c < c0
          \<and> (\<forall>j<Suc k. c < deviation l1 l2 p1 p2 ((i # is) ! j))
          \<and> (\<forall>j<length (i # is). c \<le> deviation l1 l2 p1 p2 ((i # is) ! j))"
        by simp
      then show ?thesis by blast
    qed
  qed
qed


lemma find_vertical_characterised:
  assumes "length p1 \<le> length p2"
  shows "(find_vertical l1 l2 p1 p2 = Inr None
            \<and> (\<forall>i<length p1. 999 \<le> deviation l1 l2 p1 p2 i))
       \<or> (\<exists>k<length p1. find_vertical l1 l2 p1 p2 = Inr (Some k)
            \<and> deviation l1 l2 p1 p2 k < 999
            \<and> (\<forall>j<k. deviation l1 l2 p1 p2 k < deviation l1 l2 p1 p2 j)
            \<and> (\<forall>j<length p1. deviation l1 l2 p1 p2 k \<le> deviation l1 l2 p1 p2 j))"
proof -
  from assms have valid: "\<forall>i\<in>set [0..<length p1]. i < length p1 \<and> i < length p2"
    by auto
  from find_vertical_loop_total [OF valid]
  obtain c ci where run:
    "find_vertical_loop l1 l2 p1 p2 [0..<length p1] (999, None) = Inr (c, ci)"
    by blast
  then have fv: "find_vertical l1 l2 p1 p2 = Inr ci"
    by (simp add: find_vertical_def)
  from find_vertical_loop_spec [OF valid run] show ?thesis
  proof
    assume "ci = None \<and> c = 999 \<and> (\<forall>i\<in>set [0..<length p1]. 999 \<le> deviation l1 l2 p1 p2 i)"
    with fv show ?thesis by auto
  next
    assume "\<exists>k<length [0..<length p1]. ci = Some ([0..<length p1] ! k)
       \<and> c = deviation l1 l2 p1 p2 ([0..<length p1] ! k) \<and> c < 999
       \<and> (\<forall>j<k. c < deviation l1 l2 p1 p2 ([0..<length p1] ! j))
       \<and> (\<forall>j<length [0..<length p1]. c \<le> deviation l1 l2 p1 p2 ([0..<length p1] ! j))"
    then obtain k where k: "k < length p1" "ci = Some k" "c = deviation l1 l2 p1 p2 k"
       "c < 999" "\<forall>j<k. c < deviation l1 l2 p1 p2 ([0..<length p1] ! j)"
       "\<forall>j<length p1. c \<le> deviation l1 l2 p1 p2 ([0..<length p1] ! j)"
      by auto
    from k(1,5) have "\<forall>j<k. c < deviation l1 l2 p1 p2 j" by auto
    moreover from k(6) have "\<forall>j<length p1. c \<le> deviation l1 l2 p1 p2 j" by auto
    ultimately show ?thesis using k(1-4) fv by auto
  qed
qed

text \<open>
  Claim C2. The specification says that for every pair of equal-length non-empty angle
  series \<open>find_vertical\<close> returns the smallest index minimising
  \<open>|l1*sin(p1[i]) + l2*sin(p2[i])|\<close>. The scan starts from \<open>closest = 999\<close>, so a series
  whose deviations are all at least 999 yields \<open>None\<close>: with \<open>l1 = 2000\<close>, \<open>l2 = 1\<close> the
  deviations of \<open>p1 = [pi/2, pi/2]\<close>, \<open>p2 = [0, pi/2]\<close> are 2000 and 2001, the minimising
  index is 0 and the code returns \<open>None\<close>. (Lemma \<open>find_vertical_characterised\<close>: whenever
  some deviation is below 999 the result is the least minimising index.)
\<close>

theorem find_vertical_misses_minimum:
  "find_vertical 2000 1 [pi/2, pi/2] [0, pi/2] = Inr None
   \<and> deviation 2000 1 [pi/2, pi/2] [0, pi/2] 0 = 2000
   \<and> deviation 2000 1 [pi/2, pi/2] [0, pi/2] 1 = 2001"
  by (simp add: find_vertical_def deviation_def upt_rec)

text \<open>
  Claim C4. The specification says that \<open>find_vertical\<close> returns \<open>None\<close> if and only if the
  series is empty. The empty series does give \<open>None\<close>, but so does the one-sample series
  \<open>p1 = [pi/2]\<close>, \<open>p2 = [0]\<close> with \<open>l1 = 1000\<close>, \<open>l2 = 1\<close>, whose only deviation, 1000, is not
  below the starting value 999 of the scan.
\<close>

theorem find_vertical_none_on_nonempty:
  "find_vertical 1000 1 [] [] = Inr None
   \<and> find_vertical 1000 1 [pi/2] [0] = Inr None
   \<and> deviation 1000 1 [pi/2] [0] 0 = 1000"
  by (simp add: find_vertical_def deviation_def)

lemma find_vertical_Some_bound:
  assumes "find_vertical l1 l2 p1 p2 = Inr (Some i)"
  shows "i < length p1"
proof -
  from assms obtain c where
    "find_vertical_loop l1 l2 p1 p2 [0..<length p1] (999, None) = Inr (c, Some i)"
    by (auto simp: find_vertical_def split: sum.splits)
  from find_vertical_loop_index [OF this] show ?thesis by simp
qed

lemma crossing_index_in_trajectory:
  "find_vertical la lb (column0 v_sol) (column2 v_sol) = Inr (Some i) \<Longrightarrow>
   i < length v_sol \<and> i < length (column3 v_sol)"
  using find_vertical_Some_bound [of la lb "column0 v_sol" "column2 v_sol" i]
  by (simp add: column0_def column3_def)

text \<open>
  Claim C9. \<open>find_vertical\<close> reads \<open>p1\<close> and \<open>p2\<close> at the indices \<open>0 .. len(p1)-1\<close>. When
  \<open>len(p2) \<ge> len(p1)\<close> no subscript is out of range, so the call returns (no
  \<open>IndexError\<close>), and an index it returns lies in \<open>0 .. len(p1)-1\<close>: it is a valid
  subscript of both angle series and of any trajectory column of that length.
\<close>

theorem find_vertical_in_bounds:
  assumes "length p1 \<le> length p2"
  shows "\<exists>r. find_vertical l1 l2 p1 p2 = Inr r
           \<and> (\<forall>i. r = Some i \<longrightarrow> i < length p1 \<and> i < length p2)"
proof -
  from assms have valid: "\<forall>i\<in>set [0..<length p1]. i < length p1 \<and> i < length p2"
    by auto
  from find_vertical_loop_total [OF valid]
  obtain c ci where run:
    "find_vertical_loop l1 l2 p1 p2 [0..<length p1] (999, None) = Inr (c, ci)"
    by blast
  have "i < length p1 \<and> i < length p2" if "ci = Some i" for i
    using find_vertical_loop_index [of l1 l2 p1 p2 "[0..<length p1]" 999 None c i]
      run that assms by auto
  with run show ?thesis
    by (simp add: find_vertical_def)
qed

theorem find_vertical_in_bounds_witness:
  "length [0, pi/2] \<le> length [0, 0, 0::real]
   \<and> find_vertical 1 1 [0, pi/2] [0, 0, 0] = Inr (Some 0)
   \<and> (0::nat) < length [0, pi/2]"
  using find_vertical_in_bounds [of "[0, pi/2]" "[0, 0, 0]" 1 1]
  by (simp add: find_vertical_def upt_rec)



section \<open>The store: what the one-dimensional sweeps write\<close>

lemma store_setitem_frame:
  "store_setitem s a i x = Inr s' \<Longrightarrow>
   next_addr s' = next_addr s \<and> (\<forall>b. b \<noteq> a \<longrightarrow> cells s' b = cells s b)
   \<and> load s' a = (load s a)[i := x] \<and> i < length (load s a)"
  by (auto simp: store_setitem_def load_def split: if_splits)

lemma store_setitem_fails:
  "store_setitem s a i x = Inl e \<Longrightarrow> \<not> i < length (load s a)"
  by (auto simp: store_setitem_def split: if_splits)

lemma length_loop_frame:
  "b \<noteq> p_l \<Longrightarrow> cells (snd (length_loop odeint G rhs plot_l1 p_l l_arr acc s)) b = cells s b"
proof (induction l_arr arbitrary: acc s)
  case Nil
  then show ?case by simp
next
  case (Cons l l_arr)
  show ?case
  proof (cases "store_setitem s p_l (if plot_l1 then 2 else 3) l")
    case (Inl e)
    then show ?thesis by simp
  next
    case (Inr s')
    from store_setitem_frame [OF Inr] Cons.prems
    have keep: "cells s' b = cells s b" by simp
    show ?thesis
      using Inr keep Cons.IH [OF Cons.prems, of _ s']
      by (cases plot_l1) (auto split: sum.splits)
  qed
qed

lemma mass_loop_frame:
  "b \<noteq> p_m \<Longrightarrow> cells (snd (mass_loop odeint G rhs plot_m1 p_m m_arr acc s)) b = cells s b"
proof (induction m_arr arbitrary: acc s)
  case Nil
  then show ?case by simp
next
  case (Cons m m_arr)
  show ?case
  proof (cases "store_setitem s p_m (if plot_m1 then 0 else 1) m")
    case (Inl e)
    then show ?thesis by simp
  next
    case (Inr s')
    from store_setitem_frame [OF Inr] Cons.prems
    have keep: "cells s' b = cells s b" by simp
    show ?thesis
      using Inr keep Cons.IH [OF Cons.prems, of _ s']
      by (auto split: sum.splits)
  qed
qed

text \<open>
  Claim C10. \<open>length_plot\<close> and \<open>mass_plot\<close> never mutate the shared parameter list \<open>p\<close>:
  each works on \<open>p.copy()\<close>, a new object, and assigns the varied length or mass into
  that copy only. Whatever the run does (complete or raise), the object that \<open>p\<close> refers
  to holds the same entries afterwards as before. The hypothesis says that \<open>p\<close> refers
  to an object that exists when the sweep starts.
\<close>

theorem sweeps_leave_base_parameters:
  assumes "glob_p G < next_addr s"
  shows "cells (snd (length_plot odeint G s rhs plot_l1 n l_max)) (glob_p G) = cells s (glob_p G)
       \<and> cells (snd (mass_plot odeint G s rhs plot_m1 n m_max)) (glob_p G) = cells s (glob_p G)"
proof -
  from assms have fresh: "glob_p G \<noteq> next_addr s" by simp
  have copy: "cells (snd (list_copy s (glob_p G))) (glob_p G) = cells s (glob_p G)"
    using fresh by (simp add: list_copy_def)
  have "cells (snd (length_plot odeint G s rhs plot_l1 n l_max)) (glob_p G) = cells s (glob_p G)"
  proof (cases "linspace (25/100) l_max n")
    case (Inl e)
    then show ?thesis by (simp add: length_plot_def)
  next
    case (Inr l_arr)
    then show ?thesis
      using length_loop_frame [OF fresh, of odeint G rhs plot_l1 l_arr "[]"
          "snd (list_copy s (glob_p G))"] copy
      by (simp add: length_plot_def list_copy_def)
  qed
  moreover
  have "cells (snd (mass_plot odeint G s rhs plot_m1 n m_max)) (glob_p G) = cells s (glob_p G)"
  proof (cases "linspace (25/100) m_max n")
    case (Inl e)
    then show ?thesis by (simp add: mass_plot_def)
  next
    case (Inr m_arr)
    then show ?thesis
      using mass_loop_frame [OF fresh, of odeint G rhs plot_m1 m_arr "[]"
          "snd (list_copy s (glob_p G))"] copy
      by (simp add: mass_plot_def list_copy_def)
  qed
  ultimately show ?thesis by simp
qed

theorem sweeps_leave_base_parameters_witness:
  "glob_p demo_globals < next_addr demo_store
   \<and> fst (length_plot euler_odeint demo_globals demo_store zero_rhs True 2 10)
       = Inr [Scalar 0, Scalar 0]
   \<and> cells (snd (length_plot euler_odeint demo_globals demo_store zero_rhs True 2 10)) 1
       = Some [1, 1, 10, 1, 98/10]
   \<and> cells (snd (length_plot euler_odeint demo_globals demo_store zero_rhs True 2 10))
       (glob_p demo_globals) = Some [1, 1, 1, 1, 98/10]
   \<and> cells (snd (mass_plot euler_odeint demo_globals demo_store zero_rhs True 2 10))
       (glob_p demo_globals) = Some [1, 1, 1, 1, 98/10]"
  using sweeps_leave_base_parameters [of demo_globals demo_store euler_odeint zero_rhs True 2 10 True 10]
  by (simp add: run_defs)




section \<open>The sweep results\<close>

text \<open>What each driver's list holds: one value per grid point, in grid order, each the
  value of \<open>-w2_arr[t_index]\<close> for that grid point's integration: the negated \<open>omega2\<close> at
  the index where \<open>find_vertical\<close> returns one, the whole negated column as an array where
  it returns \<open>None\<close>.\<close>

lemma sweep_point_iff:
  "sweep_point odeint rhs ic ts pv atol rtol la lb w \<longleftrightarrow>
     (\<exists>v_sol. odeint rhs ic ts pv atol rtol = Inr v_sol \<and>
        ((\<exists>t_index. find_vertical la lb (column0 v_sol) (column2 v_sol) = Inr (Some t_index)
             \<and> t_index < length v_sol \<and> w = Scalar (- (column3 v_sol ! t_index)))
         \<or> (find_vertical la lb (column0 v_sol) (column2 v_sol) = Inr None
             \<and> w = Array (map uminus (column3 v_sol)))))"
proof (cases "odeint rhs ic ts pv atol rtol")
  case (Inl e)
  then show ?thesis by (simp add: sweep_point_def)
next
  case (Inr v_sol)
  show ?thesis
  proof (cases "find_vertical la lb (column0 v_sol) (column2 v_sol)")
    case (Inl e)
    with Inr show ?thesis by (simp add: sweep_point_def)
  next
    case fv: (Inr r)
    show ?thesis
    proof (cases r)
      case None
      with Inr fv show ?thesis by (auto simp: sweep_point_def neg_item_def)
    next
      case (Some t_index)
      with fv crossing_index_in_trajectory [of la lb v_sol t_index]
      have "t_index < length v_sol" "t_index < length (column3 v_sol)" by simp_all
      with Inr fv Some show ?thesis
        by (auto simp: sweep_point_def neg_item_def)
    qed
  qed
qed

lemma length_loop_result:
  "fst (length_loop odeint G rhs plot_l1 a ls acc s) = Inr ws \<longleftrightarrow>
     (ls = [] \<or> (if plot_l1 then 2 else 3) < length (load s a)) \<and>
     (\<exists>vals. ws = acc @ vals \<and>
        list_all2 (\<lambda>l w. sweep_point odeint rhs (glob_IC G) (glob_t_interval G)
                      ((load s a)[(if plot_l1 then 2 else 3) := l]) (glob_abserr G) (glob_relerr G)
                      (if plot_l1 then l else glob_l1 G) (if plot_l1 then glob_l2 G else l) w)
          ls vals)"
proof (induction ls arbitrary: acc s)
  case Nil
  then show ?case by auto
next
  case (Cons l ls)
  let ?i = "if plot_l1 then 2 else 3 :: nat"
  let ?P = "\<lambda>pv l w. sweep_point odeint rhs (glob_IC G) (glob_t_interval G)
                      (pv[?i := l]) (glob_abserr G) (glob_relerr G)
                      (if plot_l1 then l else glob_l1 G) (if plot_l1 then glob_l2 G else l) w"
  let ?la = "if plot_l1 then l else glob_l1 G"
  let ?lb = "if plot_l1 then glob_l2 G else l"
  show ?case
  proof (cases "store_setitem s a ?i l")
    case (Inl e)
    from store_setitem_fails [OF Inl] Inl show ?thesis by simp
  next
    case set: (Inr s')
    from store_setitem_frame [OF set]
    have ld: "load s' a = (load s a)[?i := l]" and inb: "?i < length (load s a)" by simp_all
    have same: "?P (load s' a) = ?P (load s a)"
      by (simp add: ld)
    have len: "?i < length (load s' a)" using inb by (simp add: ld)
    let ?r = "case odeint rhs (glob_IC G) (glob_t_interval G) (load s' a)
                     (glob_abserr G) (glob_relerr G) of
                Inl e \<Rightarrow> Inl e
              | Inr v_sol \<Rightarrow>
                 (case find_vertical ?la ?lb (column0 v_sol) (column2 v_sol) of
                    Inl e \<Rightarrow> Inl e
                  | Inr t_index \<Rightarrow> neg_item (column3 v_sol) t_index)"
    have P0: "?P (load s a) l w \<longleftrightarrow> ?r = Inr w" for w
      by (auto simp: sweep_point_def ld split: sum.splits)
    show ?thesis
    proof (cases ?r)
      case (Inl e)
      then have "\<not> ?P (load s a) l w" for w
        using P0 by simp
      then have no: "\<not> list_all2 (?P (load s a)) (l # ls) vals" for vals
        by (auto simp: list_all2_Cons1)
      from Inl set have "fst (length_loop odeint G rhs plot_l1 a (l # ls) acc s) = Inl e"
        by (cases plot_l1) (auto split: sum.splits)
      with no show ?thesis by simp
    next
      case (Inr w0)
      then have step: "fst (length_loop odeint G rhs plot_l1 a (l # ls) acc s)
                  = fst (length_loop odeint G rhs plot_l1 a ls (acc @ [w0]) s')"
        using set by (cases plot_l1) (auto split: sum.splits)
      have P1: "?P (load s a) l w \<longleftrightarrow> w = w0" for w
        using P0 Inr by auto
      have "fst (length_loop odeint G rhs plot_l1 a ls (acc @ [w0]) s') = Inr ws \<longleftrightarrow>
             (\<exists>vals. ws = (acc @ [w0]) @ vals \<and> list_all2 (?P (load s a)) ls vals)"
        using Cons.IH [of "acc @ [w0]" s'] len same by simp
      also have "\<dots> \<longleftrightarrow> (\<exists>vals. ws = acc @ vals \<and> list_all2 (?P (load s a)) (l # ls) vals)"
        using P1 by (auto simp: list_all2_Cons1)
      finally show ?thesis using step inb by simp
    qed
  qed
qed

lemma mass_loop_result:
  "fst (mass_loop odeint G rhs plot_m1 a ls acc s) = Inr ws \<longleftrightarrow>
     (ls = [] \<or> (if plot_m1 then 0 else 1) < length (load s a)) \<and>
     (\<exists>vals. ws = acc @ vals \<and>
        list_all2 (\<lambda>l w. sweep_point odeint rhs (glob_IC G) (glob_t_interval G)
                      ((load s a)[(if plot_m1 then 0 else 1) := l]) (glob_abserr G) (glob_relerr G)
                      (glob_l1 G) (glob_l2 G) w)
          ls vals)"
proof (induction ls arbitrary: acc s)
  case Nil
  then show ?case by auto
next
  case (Cons l ls)
  let ?i = "if plot_m1 then 0 else 1 :: nat"
  let ?P = "\<lambda>pv l w. sweep_point odeint rhs (glob_IC G) (glob_t_interval G)
                      (pv[?i := l]) (glob_abserr G) (glob_relerr G)
                      (glob_l1 G) (glob_l2 G) w"
  let ?la = "glob_l1 G"
  let ?lb = "glob_l2 G"
  show ?case
  proof (cases "store_setitem s a ?i l")
    case (Inl e)
    from store_setitem_fails [OF Inl] Inl show ?thesis by simp
  next
    case set: (Inr s')
    from store_setitem_frame [OF set]
    have ld: "load s' a = (load s a)[?i := l]" and inb: "?i < length (load s a)" by simp_all
    have same: "?P (load s' a) = ?P (load s a)"
      by (simp add: ld)
    have len: "?i < length (load s' a)" using inb by (simp add: ld)
    let ?r = "case odeint rhs (glob_IC G) (glob_t_interval G) (load s' a)
                     (glob_abserr G) (glob_relerr G) of
                Inl e \<Rightarrow> Inl e
              | Inr v_sol \<Rightarrow>
                 (case find_vertical ?la ?lb (column0 v_sol) (column2 v_sol) of
                    Inl e \<Rightarrow> Inl e
                  | Inr t_index \<Rightarrow> neg_item (column3 v_sol) t_index)"
    have P0: "?P (load s a) l w \<longleftrightarrow> ?r = Inr w" for w
      by (auto simp: sweep_point_def ld split: sum.splits)
    show ?thesis
    proof (cases ?r)
      case (Inl e)
      then have "\<not> ?P (load s a) l w" for w
        using P0 by simp
      then have no: "\<not> list_all2 (?P (load s a)) (l # ls) vals" for vals
        by (auto simp: list_all2_Cons1)
      from Inl set have "fst (mass_loop odeint G rhs plot_m1 a (l # ls) acc s) = Inl e"
        by (cases plot_m1) (auto split: sum.splits)
      with no show ?thesis by simp
    next
      case (Inr w0)
      then have step: "fst (mass_loop odeint G rhs plot_m1 a (l # ls) acc s)
                  = fst (mass_loop odeint G rhs plot_m1 a ls (acc @ [w0]) s')"
        using set by (cases plot_m1) (auto split: sum.splits)
      have P1: "?P (load s a) l w \<longleftrightarrow> w = w0" for w
        using P0 Inr by auto
      have "fst (mass_loop odeint G rhs plot_m1 a ls (acc @ [w0]) s') = Inr ws \<longleftrightarrow>
             (\<exists>vals. ws = (acc @ [w0]) @ vals \<and> list_all2 (?P (load s a)) ls vals)"
        using Cons.IH [of "acc @ [w0]" s'] len same by simp
      also have "\<dots> \<longleftrightarrow> (\<exists>vals. ws = acc @ vals \<and> list_all2 (?P (load s a)) (l # ls) vals)"
        using P1 by (auto simp: list_all2_Cons1)
      finally show ?thesis using step inb by simp
    qed
  qed
qed

lemma length_plot_result:
  "fst (length_plot odeint G s rhs plot_l1 n l_max) = Inr ws \<longleftrightarrow>
     (\<exists>l_arr. linspace (25/100) l_max n = Inr l_arr
        \<and> (l_arr = [] \<or> (if plot_l1 then 2 else 3) < length (load s (glob_p G)))
        \<and> list_all2 (\<lambda>l w. sweep_point odeint rhs (glob_IC G) (glob_t_interval G)
                      ((load s (glob_p G))[(if plot_l1 then 2 else 3) := l])
                      (glob_abserr G) (glob_relerr G)
                      (if plot_l1 then l else glob_l1 G) (if plot_l1 then glob_l2 G else l) w)
             l_arr ws)"
proof (cases "linspace (25/100) l_max n")
  case (Inl e)
  then show ?thesis by (simp add: length_plot_def)
next
  case (Inr l_arr)
  obtain p_l s' where cp: "list_copy s (glob_p G) = (p_l, s')"
    by (cases "list_copy s (glob_p G)")
  then have ld: "load s' p_l = load s (glob_p G)"
    by (auto simp: list_copy_def load_def)
  have run: "fst (length_plot odeint G s rhs plot_l1 n l_max)
               = fst (length_loop odeint G rhs plot_l1 p_l l_arr [] s')"
    using Inr cp by (simp add: length_plot_def)
  show ?thesis
    unfolding run length_loop_result ld using Inr by simp
qed

lemma mass_plot_result:
  "fst (mass_plot odeint G s rhs plot_m1 n m_max) = Inr ws \<longleftrightarrow>
     (\<exists>m_arr. linspace (25/100) m_max n = Inr m_arr
        \<and> (m_arr = [] \<or> (if plot_m1 then 0 else 1) < length (load s (glob_p G)))
        \<and> list_all2 (\<lambda>m w. sweep_point odeint rhs (glob_IC G) (glob_t_interval G)
                      ((load s (glob_p G))[(if plot_m1 then 0 else 1) := m])
                      (glob_abserr G) (glob_relerr G) (glob_l1 G) (glob_l2 G) w)
             m_arr ws)"
proof (cases "linspace (25/100) m_max n")
  case (Inl e)
  then show ?thesis by (simp add: mass_plot_def)
next
  case (Inr m_arr)
  obtain p_m s' where cp: "list_copy s (glob_p G) = (p_m, s')"
    by (cases "list_copy s (glob_p G)")
  then have ld: "load s' p_m = load s (glob_p G)"
    by (auto simp: list_copy_def load_def)
  have run: "fst (mass_plot odeint G s rhs plot_m1 n m_max)
               = fst (mass_loop odeint G rhs plot_m1 p_m m_arr [] s')"
    using Inr cp by (simp add: mass_plot_def)
  show ?thesis
    unfolding run mass_loop_result ld using Inr by simp
qed

lemma p_w_inner_lists:
  "p_w_inner odeint G s rhs w_val slc w_err p1 ps (mx, mn, L) = Inr (mx', mn', L') \<Longrightarrow>
   \<exists>vals. list_all2 (\<lambda>p2 w. sweep_point odeint rhs (p1, glob_w1 G, p2, glob_w2 G)
                       (glob_t_interval G) (load s (glob_p G)) (glob_abserr G) (glob_relerr G)
                       (glob_l1 G) (glob_l2 G) w) ps vals
     \<and> w2_list L' = w2_list L @ vals
     \<and> p1_list L' = p1_list L @ map (\<lambda>p2. p1) ps
     \<and> p2_list L' = p2_list L @ ps"
proof (induction ps arbitrary: mx mn L)
  case Nil
  then show ?case by simp
next
  case (Cons p2 ps)
  from Cons.prems obtain v_sol t_index w where
    od: "odeint rhs (p1, glob_w1 G, p2, glob_w2 G) (glob_t_interval G) (load s (glob_p G))
           (glob_abserr G) (glob_relerr G) = Inr v_sol"
    and fv: "find_vertical (glob_l1 G) (glob_l2 G) (column0 v_sol) (column2 v_sol)
           = Inr t_index"
    and ni: "neg_item (column3 v_sol) t_index = Inr w"
    by (auto split: sum.splits)
  from Cons.prems od fv ni obtain mx1 mn1 L1 where
    rest: "p_w_inner odeint G s rhs w_val slc w_err p1 ps (mx1, mn1, L1) = Inr (mx', mn', L')"
    and L1: "w2_list L1 = w2_list L @ [w]" "p1_list L1 = p1_list L @ [p1]"
            "p2_list L1 = p2_list L @ [p2]"
    by (auto simp: Let_def split: sum.splits if_splits)
  from Cons.IH [OF rest] obtain vals where
    vals: "list_all2 (\<lambda>p2 w. sweep_point odeint rhs (p1, glob_w1 G, p2, glob_w2 G)
                       (glob_t_interval G) (load s (glob_p G)) (glob_abserr G) (glob_relerr G)
                       (glob_l1 G) (glob_l2 G) w) ps vals"
      "w2_list L' = w2_list L1 @ vals" "p1_list L' = p1_list L1 @ map (\<lambda>p2. p1) ps"
      "p2_list L' = p2_list L1 @ ps"
    by blast
  have "sweep_point odeint rhs (p1, glob_w1 G, p2, glob_w2 G)
                       (glob_t_interval G) (load s (glob_p G)) (glob_abserr G) (glob_relerr G)
                       (glob_l1 G) (glob_l2 G) w"
    using od fv ni by (simp add: sweep_point_def)
  with vals L1 show ?case
    by (intro exI [of _ "w # vals"]) simp
qed

lemma p_w_row_end_lists:
  "p_w_row_end st = Inr L' \<Longrightarrow>
   w2_list L' = w2_list (snd (snd st)) \<and> p1_list L' = p1_list (snd (snd st))
   \<and> p2_list L' = p2_list (snd (snd st))"
  by (auto simp: p_w_row_end_def split: prod.splits sum.splits if_splits)

lemma p_w_outer_lists:
  "p_w_outer odeint G s rhs w_val slc w_err p1s ps L = Inr L' \<Longrightarrow>
   \<exists>vals. list_all2 (\<lambda>(p1, p2) w. sweep_point odeint rhs (p1, glob_w1 G, p2, glob_w2 G)
                       (glob_t_interval G) (load s (glob_p G)) (glob_abserr G) (glob_relerr G)
                       (glob_l1 G) (glob_l2 G) w) (List.product p1s ps) vals
     \<and> w2_list L' = w2_list L @ vals
     \<and> p1_list L' = p1_list L @ map fst (List.product p1s ps)
     \<and> p2_list L' = p2_list L @ map snd (List.product p1s ps)"
proof (induction p1s arbitrary: L)
  case Nil
  then show ?case by simp
next
  case (Cons p1 p1s)
  let ?P = "\<lambda>p1 p2 w. sweep_point odeint rhs (p1, glob_w1 G, p2, glob_w2 G)
                       (glob_t_interval G) (load s (glob_p G)) (glob_abserr G) (glob_relerr G)
                       (glob_l1 G) (glob_l2 G) w"
  from Cons.prems obtain mx mn L1 L2 where
    inner: "p_w_inner odeint G s rhs w_val slc w_err p1 ps (Scalar 0, Scalar 9999, L)
             = Inr (mx, mn, L1)"
    and row: "p_w_row_end (mx, mn, L1) = Inr L2"
    and rest: "p_w_outer odeint G s rhs w_val slc w_err p1s ps L2 = Inr L'"
    by (auto split: sum.splits)
  from p_w_inner_lists [OF inner] obtain vals1 where
    o1: "list_all2 (?P p1) ps vals1" "w2_list L1 = w2_list L @ vals1"
        "p1_list L1 = p1_list L @ map (\<lambda>p2. p1) ps" "p2_list L1 = p2_list L @ ps"
    by blast
  from p_w_row_end_lists [OF row]
  have r: "w2_list L2 = w2_list L1" "p1_list L2 = p1_list L1" "p2_list L2 = p2_list L1"
    by simp_all
  from Cons.IH [OF rest] obtain vals2 where
    o2: "list_all2 (\<lambda>(p1, p2) w. ?P p1 p2 w) (List.product p1s ps) vals2"
        "w2_list L' = w2_list L2 @ vals2"
        "p1_list L' = p1_list L2 @ map fst (List.product p1s ps)"
        "p2_list L' = p2_list L2 @ map snd (List.product p1s ps)"
    by blast
  have "list_all2 (\<lambda>(p1, p2) w. ?P p1 p2 w) (map (Pair p1) ps) vals1"
    using o1(1) by (simp add: list_all2_map1)
  with o2(1) have "list_all2 (\<lambda>(p1, p2) w. ?P p1 p2 w) (List.product (p1 # p1s) ps) (vals1 @ vals2)"
    by (simp add: list_all2_appendI)
  with o1 o2 r show ?case
    by (intro exI [of _ "vals1 @ vals2"]) (simp add: comp_def)
qed



lemma p_w_plot_lists:
  assumes "p_w_plot odeint G s rhs w_val show_level_curve iter_n w_err angle_start angle_end
             = Inr L"
  shows "\<exists>iter_p. linspace angle_start angle_end iter_n = Inr iter_p
        \<and> p1_list L = map fst (List.product iter_p iter_p)
        \<and> p2_list L = map snd (List.product iter_p iter_p)
        \<and> list_all2 (\<lambda>(p1, p2) w. sweep_point odeint rhs (p1, glob_w1 G, p2, glob_w2 G)
                       (glob_t_interval G) (load s (glob_p G)) (glob_abserr G) (glob_relerr G)
                       (glob_l1 G) (glob_l2 G) w)
             (List.product iter_p iter_p) (w2_list L)"
proof -
  from assms obtain iter_p where it: "linspace angle_start angle_end iter_n = Inr iter_p"
    and outer: "p_w_outer odeint G s rhs w_val show_level_curve w_err iter_p iter_p empty_lists
             = Inr L"
    by (auto simp: p_w_plot_def split: sum.splits)
  from p_w_outer_lists [OF outer] it show ?thesis
    by (auto simp: empty_lists_def)
qed

text \<open>
  Claim C7. The specification says that for every grid point of every sweep driver the
  value appended to the sweep result is the negated \<open>omega2\<close> component of the trajectory
  at the crossing index returned by \<open>find_vertical\<close>. Where \<open>find_vertical\<close> returns
  \<open>None\<close> the code appends \<open>-w2_arr[None]\<close>, the whole negated column as an array:
  \<open>length_plot\<close> over the lengths \<open>[0.25, 2000]\<close> with the right-hand side that vanishes
  identically and \<open>IC = [pi/2, 0, 0, 1]\<close> appends \<open>-1\<close> for the first length and the array
  \<open>[[-1, -1]]\<close> for the second, whose deviations are all 2000.
\<close>

theorem length_plot_appends_array:
  "fst (length_plot euler_odeint (demo_globals\<lparr>glob_IC := (pi/2, 0, 0, 1)\<rparr>) demo_store
          zero_rhs True 2 2000) = Inr [Scalar (-1), Array [-1, -1]]
   \<and> euler_odeint zero_rhs (pi/2, 0, 0, 1) [0, pi/2] [1, 1, 2000, 1, 98/10] (1/10^8) (1/10^6)
       = Inr [(pi/2, 0, 0, 1), (pi/2, 0, 0, 1)]
   \<and> find_vertical 2000 1 [pi/2, pi/2] [0, 0] = Inr None"
  by (simp add: run_defs)


text \<open>In \<open>p_w_plot\<close> the same array reaches the comparison with the running maximum, which
  raises \<open>ValueError\<close> when the time grid has several samples; with a single sample the
  one-entry array is compared, appended and recorded like a float.\<close>

lemma p_w_plot_array_comparison_raises:
  "p_w_plot euler_odeint (demo_globals\<lparr>glob_l1 := 1000\<rparr>) demo_store zero_rhs 3 False 1
      (5/100) (pi/2) (pi/2) = Inl ValueError"
  by (simp add: run_defs)

lemma p_w_plot_single_sample_array:
  "p_w_plot euler_odeint (demo_globals\<lparr>glob_l1 := 1000, glob_t_interval := [0]\<rparr>) demo_store
      zero_rhs 3 False 1 (5/100) (pi/2) (pi/2) =
   Inr \<lparr>p1_err_list = [], p2_err_list = [], w2_err_list = [],
        p1_list = [pi/2], p2_list = [pi/2], w2_list = [Array [0]],
        max_p2_list = [pi/2], max_w2_list = [Scalar 0],
        min_p2_list = [pi/2], min_w2_list = [Array [0]]\<rparr>"
  by (simp add: run_defs)

section \<open>Which module-level variables a sweep reads\<close>

lemma load_after_update:
  "load (s\<lparr>cells := (cells s)(a \<mapsto> xs)\<rparr>) a = xs"
  by (simp add: load_def)

lemma length_loop_step:
  assumes "store_setitem s a (if plot_l1 then 2 else 3) l = Inr s1"
  shows "fst (length_loop odeint G rhs plot_l1 a (l # ls) acc s) =
    (case odeint rhs (glob_IC G) (glob_t_interval G) (load s1 a) (glob_abserr G) (glob_relerr G) of
       Inl e \<Rightarrow> Inl e
     | Inr v_sol \<Rightarrow>
        (case find_vertical (if plot_l1 then l else glob_l1 G) (if plot_l1 then glob_l2 G else l)
                (column0 v_sol) (column2 v_sol) of
           Inl e \<Rightarrow> Inl e
         | Inr t_index \<Rightarrow>
            (case neg_item (column3 v_sol) t_index of
               Inl e \<Rightarrow> Inl e
             | Inr w \<Rightarrow> fst (length_loop odeint G rhs plot_l1 a ls (acc @ [w]) s1))))"
  using assms by (cases plot_l1) (simp_all split: sum.splits)

lemma length_loop_reads:
  assumes "glob_IC G = glob_IC G'" "glob_t_interval G = glob_t_interval G'"
    "glob_abserr G = glob_abserr G'" "glob_relerr G = glob_relerr G'"
    "if plot_l1 then glob_l2 G = glob_l2 G' else glob_l1 G = glob_l1 G'"
  shows "load s a = load s' a' \<Longrightarrow>
    fst (length_loop odeint G rhs plot_l1 a ls acc s)
      = fst (length_loop odeint G' rhs plot_l1 a' ls acc s')"
proof (induction ls arbitrary: acc s s')
  case Nil
  then show ?case by simp
next
  case (Cons l ls)
  let ?i = "if plot_l1 then 2 else 3 :: nat"
  let ?s1 = "s\<lparr>cells := (cells s)(a \<mapsto> (load s a)[?i := l])\<rparr>"
  let ?s1' = "s'\<lparr>cells := (cells s')(a' \<mapsto> (load s' a')[?i := l])\<rparr>"
  have ld: "load ?s1 a = load ?s1' a'"
    using Cons.prems by (simp only: load_after_update)
  note IH = Cons.IH [OF ld]
  have lens: "(if plot_l1 then l else glob_l1 G) = (if plot_l1 then l else glob_l1 G')"
      "(if plot_l1 then glob_l2 G else l) = (if plot_l1 then glob_l2 G' else l)"
    using assms(5) by (simp_all split: if_splits)
  show ?case
  proof (cases "?i < length (load s a)")
    case False
    with Cons.prems show ?thesis by (simp add: store_setitem_def)
  next
    case True
    with Cons.prems have set1: "store_setitem s a ?i l = Inr ?s1"
      and set2: "store_setitem s' a' ?i l = Inr ?s1'"
      by (simp_all add: store_setitem_def)
    show ?thesis
      unfolding length_loop_step [OF set1] length_loop_step [OF set2]
      unfolding ld lens assms(1-4) IH ..
  qed
qed


lemma mass_loop_step:
  assumes "store_setitem s a (if plot_m1 then 0 else 1) m = Inr s1"
  shows "fst (mass_loop odeint G rhs plot_m1 a (m # ms) acc s) =
    (case odeint rhs (glob_IC G) (glob_t_interval G) (load s1 a) (glob_abserr G) (glob_relerr G) of
       Inl e \<Rightarrow> Inl e
     | Inr v_sol \<Rightarrow>
        (case find_vertical (glob_l1 G) (glob_l2 G) (column0 v_sol) (column2 v_sol) of
           Inl e \<Rightarrow> Inl e
         | Inr t_index \<Rightarrow>
            (case neg_item (column3 v_sol) t_index of
               Inl e \<Rightarrow> Inl e
             | Inr w \<Rightarrow> fst (mass_loop odeint G rhs plot_m1 a ms (acc @ [w]) s1))))"
  using assms by (cases plot_m1) (simp_all split: sum.splits)

lemma mass_loop_reads:
  assumes "glob_IC G = glob_IC G'" "glob_t_interval G = glob_t_interval G'"
    "glob_abserr G = glob_abserr G'" "glob_relerr G = glob_relerr G'"
    "glob_l1 G = glob_l1 G'" "glob_l2 G = glob_l2 G'"
  shows "load s a = load s' a' \<Longrightarrow>
    fst (mass_loop odeint G rhs plot_m1 a ms acc s)
      = fst (mass_loop odeint G' rhs plot_m1 a' ms acc s')"
proof (induction ms arbitrary: acc s s')
  case Nil
  then show ?case by simp
next
  case (Cons m ms)
  let ?i = "if plot_m1 then 0 else 1 :: nat"
  let ?s1 = "s\<lparr>cells := (cells s)(a \<mapsto> (load s a)[?i := m])\<rparr>"
  let ?s1' = "s'\<lparr>cells := (cells s')(a' \<mapsto> (load s' a')[?i := m])\<rparr>"
  have ld: "load ?s1 a = load ?s1' a'"
    using Cons.prems by (simp only: load_after_update)
  note IH = Cons.IH [OF ld]
  show ?case
  proof (cases "?i < length (load s a)")
    case False
    with Cons.prems show ?thesis by (simp add: store_setitem_def)
  next
    case True
    with Cons.prems have set1: "store_setitem s a ?i m = Inr ?s1"
      and set2: "store_setitem s' a' ?i m = Inr ?s1'"
      by (simp_all add: store_setitem_def)
    show ?thesis
      unfolding mass_loop_step [OF set1] mass_loop_step [OF set2]
      unfolding ld assms IH ..
  qed
qed

lemma p_w_inner_reads:
  assumes "glob_w1 G = glob_w1 G'" "glob_w2 G = glob_w2 G'"
    "glob_t_interval G = glob_t_interval G'"
    "glob_abserr G = glob_abserr G'" "glob_relerr G = glob_relerr G'"
    "glob_l1 G = glob_l1 G'" "glob_l2 G = glob_l2 G'"
    "load s (glob_p G) = load s' (glob_p G')"
  shows "p_w_inner odeint G s rhs w_val slc w_err p1 ps st
       = p_w_inner odeint G' s' rhs w_val slc w_err p1 ps st"
proof (induction ps arbitrary: st)
  case Nil
  show ?case by simp
next
  case (Cons p2 ps)
  obtain mx mn L where st: "st = (mx, mn, L)" by (cases st) auto
  show ?case
    unfolding st p_w_inner.simps assms Cons.IH ..
qed

lemma p_w_outer_reads:
  assumes "glob_w1 G = glob_w1 G'" "glob_w2 G = glob_w2 G'"
    "glob_t_interval G = glob_t_interval G'"
    "glob_abserr G = glob_abserr G'" "glob_relerr G = glob_relerr G'"
    "glob_l1 G = glob_l1 G'" "glob_l2 G = glob_l2 G'"
    "load s (glob_p G) = load s' (glob_p G')"
  shows "p_w_outer odeint G s rhs w_val slc w_err p1s ps L
       = p_w_outer odeint G' s' rhs w_val slc w_err p1s ps L"
proof (induction p1s arbitrary: L)
  case Nil
  show ?case by simp
next
  case (Cons p1 p1s)
  show ?case
    unfolding p_w_outer.simps p_w_inner_reads [OF assms] Cons.IH ..
qed

lemma copy_load:
  "load (snd (list_copy s a)) (fst (list_copy s a)) = load s a"
  by (simp add: list_copy_def load_def)

text \<open>
  Claim C6. The specification says that the sweep drivers are deterministic and that no
  state other than their explicit arguments influences the result, in particular not
  the module-level \<open>IC\<close>, \<open>t_interval\<close>, \<open>w1\<close>, \<open>w2\<close>, \<open>l1\<close>, \<open>l2\<close>. The drivers read
  module-level variables by design, so the statement that holds is: each driver is a
  function of its explicit arguments, the integrator, and the module-level variables it
  reads. These are the entries of \<open>p\<close>, \<open>t_interval\<close>, \<open>abserr\<close>, \<open>relerr\<close> for all
  three; in addition \<open>IC\<close> and \<open>l2\<close> (\<open>l1\<close> when \<open>plot_l1\<close> is false) for \<open>length_plot\<close>,
  \<open>IC\<close>, \<open>l1\<close>, \<open>l2\<close> for \<open>mass_plot\<close>, and \<open>w1\<close>, \<open>w2\<close>, \<open>l1\<close>, \<open>l2\<close> for \<open>p_w_plot\<close>.
  Two runs with the same arguments in module states that agree on these variables give
  the same result, whatever the other module-level variables and the rest of the store
  hold.
\<close>

theorem sweep_results_determined_by_reads:
  assumes "load s (glob_p G) = load s' (glob_p G')"
    and "glob_t_interval G = glob_t_interval G'"
    and "glob_abserr G = glob_abserr G'" and "glob_relerr G = glob_relerr G'"
  shows "(glob_IC G = glob_IC G'
            \<and> (if plot_l1 then glob_l2 G = glob_l2 G' else glob_l1 G = glob_l1 G') \<longrightarrow>
          fst (length_plot odeint G s rhs plot_l1 n l_max)
            = fst (length_plot odeint G' s' rhs plot_l1 n l_max))
       \<and> (glob_IC G = glob_IC G' \<and> glob_l1 G = glob_l1 G' \<and> glob_l2 G = glob_l2 G' \<longrightarrow>
          fst (mass_plot odeint G s rhs plot_m1 n m_max)
            = fst (mass_plot odeint G' s' rhs plot_m1 n m_max))
       \<and> (glob_w1 G = glob_w1 G' \<and> glob_w2 G = glob_w2 G'
            \<and> glob_l1 G = glob_l1 G' \<and> glob_l2 G = glob_l2 G' \<longrightarrow>
          p_w_plot odeint G s rhs w_val show_level_curve iter_n w_err angle_start angle_end
            = p_w_plot odeint G' s' rhs w_val show_level_curve iter_n w_err angle_start angle_end)"
proof (intro conjI impI)
  assume a: "glob_IC G = glob_IC G'
       \<and> (if plot_l1 then glob_l2 G = glob_l2 G' else glob_l1 G = glob_l1 G')"
  obtain q s1 where c1: "list_copy s (glob_p G) = (q, s1)"
    by (cases "list_copy s (glob_p G)")
  obtain q' s1' where c2: "list_copy s' (glob_p G') = (q', s1')"
    by (cases "list_copy s' (glob_p G')")
  have ld: "load s1 q = load s1' q'"
    using copy_load [of s "glob_p G"] copy_load [of s' "glob_p G'"] c1 c2 assms(1) by simp
  have "fst (length_loop odeint G rhs plot_l1 q l_arr [] s1)
      = fst (length_loop odeint G' rhs plot_l1 q' l_arr [] s1')" for l_arr
    using a assms(2-4) by (intro length_loop_reads ld) simp_all
  then show "fst (length_plot odeint G s rhs plot_l1 n l_max)
            = fst (length_plot odeint G' s' rhs plot_l1 n l_max)"
    by (simp add: length_plot_def c1 c2 split: sum.splits)
next
  assume a: "glob_IC G = glob_IC G' \<and> glob_l1 G = glob_l1 G' \<and> glob_l2 G = glob_l2 G'"
  obtain q s1 where c1: "list_copy s (glob_p G) = (q, s1)"
    by (cases "list_copy s (glob_p G)")
  obtain q' s1' where c2: "list_copy s' (glob_p G') = (q', s1')"
    by (cases "list_copy s' (glob_p G')")
  have ld: "load s1 q = load s1' q'"
    using copy_load [of s "glob_p G"] copy_load [of s' "glob_p G'"] c1 c2 assms(1) by simp
  have "fst (mass_loop odeint G rhs plot_m1 q m_arr [] s1)
      = fst (mass_loop odeint G' rhs plot_m1 q' m_arr [] s1')" for m_arr
    using a assms(2-4) by (intro mass_loop_reads ld) simp_all
  then show "fst (mass_plot odeint G s rhs plot_m1 n m_max)
            = fst (mass_plot odeint G' s' rhs plot_m1 n m_max)"
    by (simp add: mass_plot_def c1 c2 split: sum.splits)
next
  assume a: "glob_w1 G = glob_w1 G' \<and> glob_w2 G = glob_w2 G'
            \<and> glob_l1 G = glob_l1 G' \<and> glob_l2 G = glob_l2 G'"
  have eq: "p_w_outer odeint G s rhs w_val show_level_curve w_err p1s ps L
      = p_w_outer odeint G' s' rhs w_val show_level_curve w_err p1s ps L" for p1s ps L
    using a assms by (intro p_w_outer_reads) simp_all
  show "p_w_plot odeint G s rhs w_val show_level_curve iter_n w_err angle_start angle_end
            = p_w_plot odeint G' s' rhs w_val show_level_curve iter_n w_err angle_start angle_end"
    unfolding p_w_plot_def eq ..
qed


theorem sweep_results_determined_by_reads_witness:
  "load demo_store (glob_p demo_globals)
     = load (snd (list_copy demo_store 0))
         (glob_p (demo_globals\<lparr>glob_m1 := 3, glob_w1 := 5, glob_w2 := 7, glob_p := 1\<rparr>))
   \<and> fst (length_plot euler_odeint demo_globals demo_store zero_rhs True 2 10)
     = fst (length_plot euler_odeint
              (demo_globals\<lparr>glob_m1 := 3, glob_w1 := 5, glob_w2 := 7, glob_p := 1\<rparr>)
              (snd (list_copy demo_store 0)) zero_rhs True 2 10)
   \<and> fst (length_plot euler_odeint demo_globals demo_store zero_rhs True 2 10)
     = Inr [Scalar 0, Scalar 0]
   \<and> fst (mass_plot euler_odeint demo_globals demo_store zero_rhs True 2 10)
     = fst (mass_plot euler_odeint
              (demo_globals\<lparr>glob_m1 := 3, glob_w1 := 5, glob_w2 := 7, glob_p := 1\<rparr>)
              (snd (list_copy demo_store 0)) zero_rhs True 2 10)
   \<and> p_w_plot euler_odeint demo_globals demo_store zero_rhs 3 False 2 (5/100) 0 (pi/2)
     = p_w_plot euler_odeint (demo_globals\<lparr>glob_m1 := 3, glob_IC := (1, 2, 3, 4)\<rparr>)
         demo_store zero_rhs 3 False 2 (5/100) 0 (pi/2)"
  using sweep_results_determined_by_reads [of demo_store demo_globals "snd (list_copy demo_store 0)"
      "demo_globals\<lparr>glob_m1 := 3, glob_w1 := 5, glob_w2 := 7, glob_p := 1\<rparr>"
      True euler_odeint zero_rhs 2 10 True 10 3 False 2 "5/100" 0 "pi/2"]
    sweep_results_determined_by_reads [of demo_store demo_globals demo_store
      "demo_globals\<lparr>glob_m1 := 3, glob_IC := (1, 2, 3, 4)\<rparr>"
      True euler_odeint zero_rhs 2 10 True 10 3 False 2 "5/100" 0 "pi/2"]
  by (simp add: run_defs)

text \<open>
  The results do depend on module-level variables that are not arguments: with the same
  arguments, changing \<open>IC\<close> changes the result of \<open>length_plot\<close>, and changing \<open>w2\<close>
  changes the result of \<open>p_w_plot\<close>.
\<close>

theorem sweep_result_depends_on_module_state:
  "fst (length_plot euler_odeint demo_globals demo_store zero_rhs True 2 10)
     = Inr [Scalar 0, Scalar 0]
   \<and> fst (length_plot euler_odeint (demo_globals\<lparr>glob_IC := (0, 0, 0, 1)\<rparr>) demo_store
            zero_rhs True 2 10) = Inr [Scalar (-1), Scalar (-1)]
   \<and> p_w_plot euler_odeint demo_globals demo_store zero_rhs 3 False 2 (5/100) 0 (pi/2) =
      Inr \<lparr>p1_err_list = [], p2_err_list = [], w2_err_list = [],
           p1_list = [0, 0, pi/2, pi/2], p2_list = [0, pi/2, 0, pi/2], w2_list = [Scalar 0, Scalar 0, Scalar 0, Scalar 0],
           max_p2_list = [0, 0], max_w2_list = [Scalar 0, Scalar 0],
           min_p2_list = [0, 0], min_w2_list = [Scalar 0, Scalar 0]\<rparr>
   \<and> p_w_plot euler_odeint (demo_globals\<lparr>glob_w2 := -1\<rparr>) demo_store zero_rhs 3 False 2
        (5/100) 0 (pi/2) =
      Inr \<lparr>p1_err_list = [], p2_err_list = [], w2_err_list = [],
           p1_list = [0, 0, pi/2, pi/2], p2_list = [0, pi/2, 0, pi/2], w2_list = [Scalar 1, Scalar 1, Scalar 1, Scalar 1],
           max_p2_list = [0, 0], max_w2_list = [Scalar 1, Scalar 1],
           min_p2_list = [0, 0], min_w2_list = [Scalar 1, Scalar 1]\<rparr>"
  by (simp add: run_defs)


section \<open>The row extrema of the two-dimensional sweep\<close>

text \<open>
  Claim C3. The specification says that for every row of the angle sweep the driver
  records the maximum and the minimum of the observable over the row and the \<open>phi2\<close> of
  that row at which each occurred, also for rows whose observables are all negative. The
  running maximum starts at 0 and its \<open>phi2\<close> is looked up afterwards by
  \<open>w2_list.index\<close>: with the right-hand side that vanishes identically and the module-level
  \<open>w2 = 1\<close>, every observable is \<open>-1\<close>; after the first row the running maximum is still
  0, a value that is not in \<open>w2_list\<close>, and the lookup raises \<open>ValueError\<close>, so nothing is
  recorded.
\<close>

theorem p_w_plot_row_maximum_lost:
  "p_w_inner euler_odeint (demo_globals\<lparr>glob_w2 := 1\<rparr>) demo_store zero_rhs 3 False (5/100)
       0 [0, pi/2] (Scalar 0, Scalar 9999, empty_lists)
     = Inr (Scalar 0, Scalar (-1),
            empty_lists\<lparr>p1_list := [0, 0], p2_list := [0, pi/2],
                         w2_list := [Scalar (-1), Scalar (-1)]\<rparr>)
   \<and> p_w_plot euler_odeint (demo_globals\<lparr>glob_w2 := 1\<rparr>) demo_store zero_rhs 3 False 2
       (5/100) 0 (pi/2) = Inl ValueError"
  by (simp add: run_defs)

text \<open>
  The lookup searches the whole accumulated \<open>w2_list\<close>, not the current row. For
  integrations whose observable is 5 where the two initial angles are equal and 1
  elsewhere, the second row is \<open>[1, 5]\<close>: its maximum occurs at \<open>phi2 = pi/2\<close> and its
  minimum at \<open>phi2 = 0\<close>, but the recorded companions are \<open>0\<close> and \<open>pi/2\<close>, the positions of
  the same values in the first row.
\<close>

lemma p_w_plot_companion_from_earlier_row:
  "p_w_plot
     (\<lambda>rhs ic ts pv atol rtol.
        case ic of (p1, w1, p2, w2) \<Rightarrow> Inr [(p1, w1, p2, if p1 = p2 then -5 else -1)])
     demo_globals demo_store zero_rhs 3 False 2 (5/100) 0 (pi/2) =
   Inr \<lparr>p1_err_list = [], p2_err_list = [], w2_err_list = [],
        p1_list = [0, 0, pi/2, pi/2], p2_list = [0, pi/2, 0, pi/2], w2_list = [Scalar 5, Scalar 1, Scalar 1, Scalar 5],
        max_p2_list = [0, 0], max_w2_list = [Scalar 5, Scalar 5],
        min_p2_list = [pi/2, pi/2], min_w2_list = [Scalar 1, Scalar 1]\<rparr>"
  by (simp add: run_defs)



end
